theory Spec2Isabelle
  imports Main "HOL-Library.AList"
begin

section \<open>The plugin loader of InvenTree (plugin/apps.py)\<close>

text \<open>
  A shallow embedding of \<^verbatim>\<open>PluginAppConfig\<close>. The Django settings object, the
  persisted plugin records, the host application registry (\<^verbatim>\<open>django.apps.apps\<close>),
  the admin site and the maintenance flag are process-wide mutable objects in the source;
  here they are the fields of one state record that every operation takes and returns.
  An operation returns the exception it raised (if any) together with the state reached
  at that moment, because the handlers of \<^verbatim>\<open>load_plugins\<close> go on working
  on the state the failed attempt left behind.
\<close>

subsection \<open>Exceptions\<close>

datatype exn =
    OperationalError
  | ProgrammingError
  | PluginLoadingError string string
  | ValueError
  | IndexError
  | KeyError string
  | LookupError
  | NotRegistered string
  | AttributeError
  | IntegrityError
  | MultipleObjectsReturned
  | AppRegistryNotReady
  | OtherException string

text \<open>The tuple \<^verbatim>\<open>(OperationalError, ProgrammingError)\<close> of the two except clauses.
  Django's IntegrityError is a sibling of the two, not a subclass.\<close>

fun is_db_error :: "exn \<Rightarrow> bool" where
  "is_db_error OperationalError = True"
| "is_db_error ProgrammingError = True"
| "is_db_error other = False"

text \<open>\<^verbatim>\<open>except LookupError\<close> also catches the subclasses KeyError and IndexError.\<close>

fun is_lookup_error :: "exn \<Rightarrow> bool" where
  "is_lookup_error LookupError = True"
| "is_lookup_error (KeyError k) = True"
| "is_lookup_error IndexError = True"
| "is_lookup_error other = False"

subsection \<open>Paths and dotted names\<close>

text \<open>A \<^verbatim>\<open>pathlib.Path\<close> is modelled by its tuple of parts.\<close>

type_synonym fspath = "string list"

text \<open>\<^verbatim>\<open>Path.relative_to\<close>: the remaining parts, or ValueError when the base is no prefix.\<close>

fun relative_to :: "fspath \<Rightarrow> fspath \<Rightarrow> exn + fspath" where
  "relative_to p [] = Inr p"
| "relative_to [] (b # bs) = Inl ValueError"
| "relative_to (a # as) (b # bs) = (if a = b then relative_to as bs else Inl ValueError)"

text \<open>\<^verbatim>\<open>'.'.join(parts)\<close>\<close>

fun join_dot :: "string list \<Rightarrow> string" where
  "join_dot [] = []"
| "join_dot [x] = x"
| "join_dot (x # y # ys) = x @ ''.'' @ join_dot (y # ys)"

text \<open>\<^verbatim>\<open>plugin_path.split('.')[-1]\<close>\<close>

definition last_component :: "string \<Rightarrow> string" where
  "last_component p = rev (takeWhile (\<lambda>c. c \<noteq> CHR ''.'') (rev p))"

subsection \<open>Plugins and their persisted records\<close>

text \<open>
  A discovered plugin class. Only attributes are read before instantiation;
  \<open>init_raises\<close> is what calling the class raises, if anything. The remaining fields
  are what the instance answers to \<^verbatim>\<open>mixin_enabled\<close>,
  \<^verbatim>\<open>globalsettingspatterns\<close> and \<^verbatim>\<open>path\<close>.
\<close>

record plugin_class =
  PLUGIN_NAME :: string
  PLUGIN_SLUG :: "string option"
  class_name :: string
  is_package :: bool
  init_raises :: "exn option"
  mixin_app :: bool
  mixin_globalsettings :: bool
  globalsettingspatterns :: "(string \<times> string) list"
  plugin_dir :: fspath

record plugin =
  plugin_cls :: plugin_class
  slug :: string
  inst_is_package :: bool
  pk :: "nat option"

record plugin_config =
  cfg_pk :: nat
  cfg_key :: string
  cfg_name :: string
  cfg_active :: bool

subsection \<open>The host registry and the admin site\<close>

text \<open>A model is identified by its app label and its model name.\<close>

type_synonym model = "string \<times> string"

record app_config =
  ac_models :: "model list"
  ac_models_module :: bool
  ac_has_admin :: bool

record host =
  app_configs :: "(string \<times> app_config) list"
  all_models :: "(string \<times> string list) list"
  admin_registry :: "model list"
  apps_ready :: bool
  models_ready :: bool
  loading :: bool
  ready :: bool

datatype submodule = ModelsModule string | AdminModule string

text \<open>What a failing hot-swap reports: the file name of the last traceback frame and
  \<^verbatim>\<open>str(error)\<close>.\<close>

type_synonym fault = "fspath \<times> string"

datatype route = AdminRoutes "model list" | PluginRoutes "string list" | HostRoute string

subsection \<open>Configuration and collaborators\<close>

text \<open>
  What the loader reads but never writes: the settings flags, the two global toggles
  answered by \<^verbatim>\<open>InvenTreeSetting.get_setting\<close>, the discovered plugin classes
  (\<^verbatim>\<open>load_integration_plugins()\<close>), Django's \<^verbatim>\<open>slugify\<close>, the error the
  persistence layer raises while it is not provisioned, whether the table of plugin
  records declares its key unique, the default of the active flag, and the primitives of the host
  registry (\<^verbatim>\<open>apps.populate\<close>, \<^verbatim>\<open>apps.set_installed_apps\<close>,
  \<^verbatim>\<open>importlib.reload\<close>), which are library code and therefore parameters.
\<close>

record env =
  PLUGIN_TESTING :: bool
  ENABLE_PLUGINS_GLOBALSETTING :: bool
  ENABLE_PLUGINS_APP :: bool
  BASE_DIR :: fspath
  purelib :: fspath
  discovered :: "plugin_class list"
  slugify :: "string \<Rightarrow> string"
  db_fault :: "exn option"
  key_unique :: bool
  new_record_active :: bool
  populate :: "string list \<Rightarrow> host \<Rightarrow> fault option \<times> host"
  set_installed_apps :: "string list \<Rightarrow> host \<Rightarrow> fault option \<times> host"
  reload_module :: "submodule \<Rightarrow> host \<Rightarrow> host"

subsection \<open>The mutable state\<close>

record state =
  maintenance_mode :: bool
  INTEGRATION_PLUGINS :: "(string \<times> plugin) list"
  INTEGRATION_PLUGINS_INACTIVE :: "(string \<times> plugin_config option) list"
  INTEGRATION_PLUGIN_GLOBALSETTING :: "(string \<times> (string \<times> string) list) list"
  GLOBAL_SETTINGS :: "(string \<times> string) list"
  INSTALLED_APPS :: "string list"
  INTEGRATION_APPS_PATHS :: "string list"
  INTEGRATION_APPS_LOADING :: bool
  INTEGRATION_APPS_LOADED :: bool
  INTEGRATION_PLUGINS_RELOADING :: bool
  plugin_db :: "plugin_config list"
  plugin_errors :: "(string \<times> string \<times> string) list"
  hst :: host
  urlpatterns :: "route list"

type_synonym operation = "state \<Rightarrow> exn option \<times> state"

text \<open>Sequencing: the next statement runs only when the previous one raised nothing.\<close>

definition then_do :: "exn option \<times> state \<Rightarrow> operation \<Rightarrow> exn option \<times> state" where
  "then_do r op = (case r of (None, st) \<Rightarrow> op st | (Some e, st) \<Rightarrow> (Some e, st))"

text \<open>A call that works on the host registry only.\<close>

definition on_host :: "(host \<Rightarrow> exn option \<times> host) \<Rightarrow> operation" where
  "on_host g st = (case g (hst st) of (r, h) \<Rightarrow> (r, st\<lparr>hst := h\<rparr>))"

subsection \<open>Persistence\<close>

text \<open>Modelled from the spec: the table of \<^verbatim>\<open>PluginConfig\<close> records
  (plugin/models.py is not among the sources): a record has a slug, a display name, an
  active flag and an identifier; whether the slug column is declared unique and what the
  active flag defaults to are parameters. The call itself is the one of the source,
  \<^verbatim>\<open>get_or_create(key=plug_key, name=plug_name)\<close>, with Django's semantics: the
  lookup matches on both keyword arguments; several matches raise
  MultipleObjectsReturned; no match creates a record from the two arguments, and the
  creation raises IntegrityError when the key is declared unique and taken (the second
  lookup that Django then makes finds nothing either). The store may raise its not-ready
  error first.\<close>

definition get_or_create ::
  "env \<Rightarrow> string \<Rightarrow> string \<Rightarrow> plugin_config list \<Rightarrow> exn + (plugin_config \<times> plugin_config list)" where
  "get_or_create env k n db =
     (case db_fault env of
        Some e \<Rightarrow> Inl e
      | None \<Rightarrow>
          (case filter (\<lambda>r. cfg_key r = k \<and> cfg_name r = n) db of
             [] \<Rightarrow>
               if key_unique env \<and> k \<in> cfg_key ` set db then Inl IntegrityError
               else (let r = \<lparr>cfg_pk = length db, cfg_key = k, cfg_name = n,
                                cfg_active = new_record_active env\<rparr>
                     in Inr (r, db @ [r]))
           | [r] \<Rightarrow> Inr (r, db)
           | r # r' # rs \<Rightarrow> Inl MultipleObjectsReturned))"

text \<open>Modelled from the spec: \<^verbatim>\<open>save()\<close> of a record (plugin/models.py is not
  among the sources); the record is settable and persistable, here under its identifier.\<close>

definition save :: "plugin_config \<Rightarrow> plugin_config list \<Rightarrow> plugin_config list" where
  "save r db = map (\<lambda>x. if cfg_pk x = cfg_pk r then r else x) db"

text \<open>Modelled from the spec: \<^verbatim>\<open>log_plugin_error\<close> (plugin/helpers.py is not among the
  sources) records the failure in an error log keyed by plugin identity.\<close>

definition log_plugin_error :: "string \<Rightarrow> string \<Rightarrow> string \<Rightarrow> state \<Rightarrow> state" where
  "log_plugin_error k msg stage st = st\<lparr>plugin_errors := plugin_errors st @ [(stage, k, msg)]\<rparr>"

subsection \<open>Initialisation of the discovered plugins\<close>

text \<open>\<^verbatim>\<open>slugify(plugin.PLUGIN_SLUG if getattr(plugin, 'PLUGIN_SLUG', None) else plug_name)\<close>\<close>

definition plug_key :: "env \<Rightarrow> plugin_class \<Rightarrow> string" where
  "plug_key env c =
     slugify env (case PLUGIN_SLUG c of
                    None \<Rightarrow> PLUGIN_NAME c
                  | Some s \<Rightarrow> if s = [] then PLUGIN_NAME c else s)"

text \<open>The try block around get_or_create: a database error is re-raised unless the
  test flag is set, in which case the record is None.\<close>

definition resolve_record ::
  "env \<Rightarrow> string \<Rightarrow> string \<Rightarrow> plugin_config list
     \<Rightarrow> exn + (plugin_config option \<times> plugin_config list)" where
  "resolve_record env k n db =
     (case get_or_create env k n db of
        Inr (r, db') \<Rightarrow> Inr (Some r, db')
      | Inl e \<Rightarrow>
          if is_db_error e then (if \<not> PLUGIN_TESTING env then Inl e else Inr (None, db))
          else Inl e)"

text \<open>\<^verbatim>\<open>plugin_db_setting and plugin_db_setting.active\<close>\<close>

fun record_active :: "plugin_config option \<Rightarrow> bool" where
  "record_active None = False"
| "record_active (Some r) = cfg_active r"

text \<open>\<^verbatim>\<open>if disabled: if plugin.__name__ == disabled:\<close> (an empty string is falsy)\<close>

fun is_disabled :: "string option \<Rightarrow> plugin_class \<Rightarrow> bool" where
  "is_disabled None c = False"
| "is_disabled (Some d) c = (d \<noteq> [] \<and> class_name c = d)"

text \<open>Modelled from the spec: the slug of an instantiated plugin
  (\<^verbatim>\<open>IntegrationPluginBase\<close>, plugin/integration.py, is not among the sources). The
  spec's data model binds the instance to the slug of its descriptor, the normalised key
  derived from the name or the explicit override. The call \<^verbatim>\<open>plugin()\<close> itself, with
  the two assignments that follow it in \<^verbatim>\<open>_init_plugins\<close>, is from the source.\<close>

definition instantiate :: "env \<Rightarrow> plugin_class \<Rightarrow> plugin_config option \<Rightarrow> plugin" where
  "instantiate env c setting =
     \<lparr>plugin_cls = c, slug = plug_key env c, inst_is_package = is_package c,
      pk = (case setting of None \<Rightarrow> None | Some r \<Rightarrow> Some (cfg_pk r))\<rparr>"

text \<open>The body of the for loop of \<^verbatim>\<open>_init_plugins\<close> for one plugin class.\<close>

definition init_plugin :: "env \<Rightarrow> string option \<Rightarrow> plugin_class \<Rightarrow> operation" where
  "init_plugin env disabled c st =
     (let plug_name = PLUGIN_NAME c; key = plug_key env c in
      case resolve_record env key plug_name (plugin_db st) of
        Inl e \<Rightarrow> (Some e, st)
      | Inr (setting, db') \<Rightarrow>
          (let st1 = st\<lparr>plugin_db := db'\<rparr> in
           if PLUGIN_TESTING env \<or> record_active setting then
             (if is_disabled disabled c then
                (if \<not> PLUGIN_TESTING env then
                   (case setting of
                      None \<Rightarrow> (Some AttributeError, st1)
                    | Some r \<Rightarrow>
                        (let r' = r\<lparr>cfg_active := False\<rparr>;
                             st2 = log_plugin_error key ''Disabled'' ''init'' st1;
                             st3 = st2\<lparr>plugin_db := save r' (plugin_db st2)\<rparr>
                         in (None, st3\<lparr>INTEGRATION_PLUGINS_INACTIVE :=
                               AList.update key (Some r') (INTEGRATION_PLUGINS_INACTIVE st3)\<rparr>)))
                 else (None, st1\<lparr>INTEGRATION_PLUGINS_INACTIVE :=
                               AList.update key setting (INTEGRATION_PLUGINS_INACTIVE st1)\<rparr>))
              else
                (case init_raises c of
                   Some e \<Rightarrow> (Some e, st1)
                 | None \<Rightarrow>
                     (let p = instantiate env c setting
                      in (None, st1\<lparr>INTEGRATION_PLUGINS :=
                               AList.update (slug p) p (INTEGRATION_PLUGINS st1)\<rparr>))))
           else (None, st1\<lparr>INTEGRATION_PLUGINS_INACTIVE :=
                               AList.update key setting (INTEGRATION_PLUGINS_INACTIVE st1)\<rparr>)))"

fun init_loop :: "env \<Rightarrow> string option \<Rightarrow> plugin_class list \<Rightarrow> operation" where
  "init_loop env disabled [] st = (None, st)"
| "init_loop env disabled (c # cs) st =
     then_do (init_plugin env disabled c st) (init_loop env disabled cs)"

definition init_plugins :: "env \<Rightarrow> string option \<Rightarrow> operation" where
  "init_plugins env disabled st = init_loop env disabled (discovered env) st"

subsection \<open>The settings binder\<close>

text \<open>\<^verbatim>\<open>dict.update\<close>: existing keys keep their place, new keys are appended.\<close>

definition dict_update :: "('k \<times> 'v) list \<Rightarrow> ('k \<times> 'v) list \<Rightarrow> ('k \<times> 'v) list" where
  "dict_update d other = fold (\<lambda>kv acc. AList.update (fst kv) (snd kv) acc) other d"

fun bind_globalsettings :: "(string \<times> plugin) list \<Rightarrow> state \<Rightarrow> state" where
  "bind_globalsettings [] st = st"
| "bind_globalsettings ((sl, p) # rest) st =
     (if mixin_globalsettings (plugin_cls p) then
        (let plugin_setting = globalsettingspatterns (plugin_cls p)
         in bind_globalsettings rest
              (st\<lparr>INTEGRATION_PLUGIN_GLOBALSETTING :=
                     AList.update sl plugin_setting (INTEGRATION_PLUGIN_GLOBALSETTING st),
                   GLOBAL_SETTINGS := dict_update (GLOBAL_SETTINGS st) plugin_setting\<rparr>))
      else bind_globalsettings rest st)"

definition activate_integration_globalsettings ::
  "env \<Rightarrow> (string \<times> plugin) list \<Rightarrow> state \<Rightarrow> state" where
  "activate_integration_globalsettings env plugins st =
     (if PLUGIN_TESTING env \<or> ENABLE_PLUGINS_GLOBALSETTING env
      then bind_globalsettings plugins st else st)"

text \<open>\<^verbatim>\<open>GLOBAL_SETTINGS.pop(setting)\<close> for every key of the collected dict, in order;
  a missing key raises KeyError and leaves the earlier pops done.\<close>

fun pop_settings :: "string list \<Rightarrow> (string \<times> string) list \<Rightarrow> exn option \<times> (string \<times> string) list" where
  "pop_settings [] cat = (None, cat)"
| "pop_settings (k # ks) cat =
     (if k \<in> fst ` set cat then pop_settings ks (AList.delete k cat)
      else (Some (KeyError k), cat))"

text \<open>The dict \<^verbatim>\<open>plugin_settings\<close> built by updating with every tracked option set.\<close>

definition collect_settings ::
  "(string \<times> (string \<times> string) list) list \<Rightarrow> (string \<times> string) list" where
  "collect_settings tracked = fold (\<lambda>entry acc. dict_update acc (snd entry)) tracked []"

definition deactivate_integration_globalsettings :: operation where
  "deactivate_integration_globalsettings st =
     (let plugin_settings = collect_settings (INTEGRATION_PLUGIN_GLOBALSETTING st)
      in case pop_settings (map fst plugin_settings) (GLOBAL_SETTINGS st) of
           (Some e, cat) \<Rightarrow> (Some e, st\<lparr>GLOBAL_SETTINGS := cat\<rparr>)
         | (None, cat) \<Rightarrow>
             (None, st\<lparr>GLOBAL_SETTINGS := cat, INTEGRATION_PLUGIN_GLOBALSETTING := []\<rparr>))"

subsection \<open>The reload supervisor\<close>

text \<open>\<^verbatim>\<open>_try_reload\<close>: any exception of the command is turned into a
  PluginLoadingError named after the first part of the failing file's path below
  \<^verbatim>\<open>purelib\<close>; \<^verbatim>\<open>relative_to\<close> and \<^verbatim>\<open>parts[0]\<close> run inside the handler
  and raise on their own.\<close>

definition try_reload ::
  "env \<Rightarrow> (string list \<Rightarrow> host \<Rightarrow> fault option \<times> host) \<Rightarrow> string list \<Rightarrow> host
     \<Rightarrow> exn option \<times> host" where
  "try_reload env cmd args h =
     (case cmd args h of
        (None, h') \<Rightarrow> (None, h')
      | (Some (package_path, msg), h') \<Rightarrow>
          (case relative_to package_path (purelib env) of
             Inl e \<Rightarrow> (Some e, h')
           | Inr [] \<Rightarrow> (Some IndexError, h')
           | Inr (package_name # rest) \<Rightarrow> (Some (PluginLoadingError package_name msg), h')))"

definition reset_registry :: "host \<Rightarrow> host" where
  "reset_registry h =
     h\<lparr>app_configs := [], apps_ready := False, models_ready := False,
       loading := False, ready := False\<rparr>"

definition reload_apps :: "env \<Rightarrow> bool \<Rightarrow> operation" where
  "reload_apps env force_reload st =
     then_do
       (if force_reload
        then on_host (\<lambda>h. try_reload env (populate env) (INSTALLED_APPS st) (reset_registry h)) st
        else (None, st))
       (\<lambda>st1. then_do
          (on_host (try_reload env (set_installed_apps env) (INSTALLED_APPS st1))
             (st1\<lparr>INTEGRATION_PLUGINS_RELOADING := True\<rparr>))
          (\<lambda>st2. (None, st2\<lparr>INTEGRATION_PLUGINS_RELOADING := False\<rparr>)))"

text \<open>\<^verbatim>\<open>apps.get_app_config(name)\<close>: AppRegistryNotReady while the apps are not
  loaded, LookupError when no app has the label.\<close>

definition get_app_config :: "host \<Rightarrow> string \<Rightarrow> exn + app_config" where
  "get_app_config h nm =
     (if \<not> apps_ready h then Inl AppRegistryNotReady
      else case map_of (app_configs h) nm of
             None \<Rightarrow> Inl LookupError
           | Some ac \<Rightarrow> Inr ac)"

text \<open>\<^verbatim>\<open>app_config.get_models()\<close>: AppRegistryNotReady while the models are not
  loaded.\<close>

definition get_models :: "host \<Rightarrow> app_config \<Rightarrow> exn + model list" where
  "get_models h ac = (if \<not> models_ready h then Inl AppRegistryNotReady else Inr (ac_models ac))"

text \<open>The body of the for loop of \<^verbatim>\<open>_reregister_contrib_apps\<close> after the lookup.
  The app config is an object of the registry, so it is read again after a reload.\<close>

definition reregister_app :: "env \<Rightarrow> string \<Rightarrow> app_config \<Rightarrow> host \<Rightarrow> exn option \<times> host" where
  "reregister_app env app_name ac h =
     (let h1 = (if ac_models_module ac \<and> ac_models ac = []
                then reload_module env (ModelsModule app_name) h else h);
          ac1 = (case map_of (app_configs h1) app_name of None \<Rightarrow> ac | Some a \<Rightarrow> a)
      in case get_models h1 ac1 of
           Inl e \<Rightarrow> (Some e, h1)
         | Inr models \<Rightarrow>
             (let model_not_reg = list_ex (\<lambda>m. m \<notin> set (admin_registry h1)) models
              in if model_not_reg \<and> ac_has_admin ac1
                 then (None, reload_module env (AdminModule app_name) h1) else (None, h1)))"

fun reregister_loop :: "env \<Rightarrow> string list \<Rightarrow> host \<Rightarrow> exn option \<times> host" where
  "reregister_loop env [] h = (None, h)"
| "reregister_loop env (plugin_path # rest) h =
     (let app_name = last_component plugin_path in
      case get_app_config h app_name of
        Inl e \<Rightarrow> if is_lookup_error e then (None, h) else (Some e, h)
      | Inr ac \<Rightarrow>
          (case reregister_app env app_name ac h of
             (None, h') \<Rightarrow> reregister_loop env rest h'
           | (Some e, h') \<Rightarrow> (Some e, h')))"

definition reregister_contrib_apps :: "env \<Rightarrow> operation" where
  "reregister_contrib_apps env st =
     on_host (reregister_loop env (INTEGRATION_APPS_PATHS st)) st"

text \<open>Modelled from the spec: \<^verbatim>\<open>get_integration_urls()\<close> (plugin/urls.py is not
  among the sources); the spec makes the replacement of the plugin entry a freshly
  constructed sub-table, here the one of the active plugins. The rest is
  \<^verbatim>\<open>_update_urls\<close>: the entry whose app name is admin is rebuilt from the admin
  site, every other entry is kept.\<close>

fun rebuild_route :: "state \<Rightarrow> route \<Rightarrow> route" where
  "rebuild_route st (AdminRoutes old) = AdminRoutes (admin_registry (hst st))"
| "rebuild_route st (PluginRoutes old) = PluginRoutes (map fst (INTEGRATION_PLUGINS st))"
| "rebuild_route st (HostRoute r) = HostRoute r"

definition update_urls :: "state \<Rightarrow> state" where
  "update_urls st = st\<lparr>urlpatterns := map (rebuild_route st) (urlpatterns st)\<rparr>"

subsection \<open>The module binder\<close>

definition get_plugin_path :: "env \<Rightarrow> plugin \<Rightarrow> string" where
  "get_plugin_path env p =
     (case relative_to (plugin_dir (plugin_cls p)) (BASE_DIR env) of
        Inr parts \<Rightarrow> join_dot parts
      | Inl e \<Rightarrow> PLUGIN_NAME (plugin_cls p))"

text \<open>The for loop of \<^verbatim>\<open>activate_integration_app\<close>; the flag is \<^verbatim>\<open>apps_changed\<close>.\<close>

fun add_apps :: "env \<Rightarrow> (string \<times> plugin) list \<Rightarrow> state \<Rightarrow> bool \<Rightarrow> state \<times> bool" where
  "add_apps env [] st changed = (st, changed)"
| "add_apps env ((sl, p) # rest) st changed =
     (if mixin_app (plugin_cls p) then
        (let plugin_path = get_plugin_path env p in
         if plugin_path \<notin> set (INSTALLED_APPS st)
         then add_apps env rest
                (st\<lparr>INSTALLED_APPS := INSTALLED_APPS st @ [plugin_path],
                    INTEGRATION_APPS_PATHS := INTEGRATION_APPS_PATHS st @ [plugin_path]\<rparr>) True
         else add_apps env rest st changed)
      else add_apps env rest st changed)"

text \<open>The block under \<^verbatim>\<open>if apps_changed or force_reload:\<close>\<close>

definition reload_after_change :: "env \<Rightarrow> bool \<Rightarrow> operation" where
  "reload_after_change env force_reload st =
     then_do
       (if INTEGRATION_APPS_LOADING st \<or> force_reload
        then reload_apps env True (st\<lparr>INTEGRATION_APPS_LOADING := False\<rparr>)
        else (None, st))
       (\<lambda>st1. then_do (reload_apps env False st1)
          (\<lambda>st2. then_do (reregister_contrib_apps env st2)
             (\<lambda>st3. (None, update_urls st3))))"

definition activate_integration_app ::
  "env \<Rightarrow> (string \<times> plugin) list \<Rightarrow> bool \<Rightarrow> operation" where
  "activate_integration_app env plugins force_reload st =
     (if PLUGIN_TESTING env \<or> ENABLE_PLUGINS_APP env then
        (let added = add_apps env plugins st False;
             apps_changed = snd added
         in if apps_changed \<or> force_reload
            then reload_after_change env force_reload (fst added)
            else (None, fst added))
      else (None, st))"

definition activate_plugins :: "env \<Rightarrow> bool \<Rightarrow> operation" where
  "activate_plugins env force_reload st =
     (let plugins = INTEGRATION_PLUGINS st;
          st1 = activate_integration_globalsettings env plugins st
      in activate_integration_app env plugins force_reload st1)"

subsection \<open>Deactivation\<close>

text \<open>The inner loop over \<^verbatim>\<open>app_config.get_models()\<close>: unregister from the admin site
  (NotRegistered when the model is not there) and collect the model name.\<close>

fun unregister_models :: "model list \<Rightarrow> model list \<Rightarrow> string list \<Rightarrow> exn option \<times> model list \<times> string list" where
  "unregister_models [] reg names = (None, reg, names)"
| "unregister_models (m # ms) reg names =
     (if m \<in> set reg then unregister_models ms (removeAll m reg) (names @ [snd m])
      else (Some (NotRegistered (snd m)), reg, names))"

text \<open>\<^verbatim>\<open>apps.all_models[plugin_path].pop(model)\<close> for every collected name;
  \<^verbatim>\<open>all_models\<close> is a defaultdict, so reading a missing key inserts an empty dict.\<close>

fun pop_models :: "string \<Rightarrow> string list \<Rightarrow> (string \<times> string list) list
     \<Rightarrow> exn option \<times> (string \<times> string list) list" where
  "pop_models plugin_path [] am = (None, am)"
| "pop_models plugin_path (m # ms) am =
     (case map_of am plugin_path of
        None \<Rightarrow> (Some (KeyError m), am @ [(plugin_path, [])])
      | Some names \<Rightarrow>
          if m \<in> set names
          then pop_models plugin_path ms (AList.update plugin_path (removeAll m names) am)
          else (Some (KeyError m), am))"

datatype step = Continue | Break | Raise exn

text \<open>The body of the for loop of \<^verbatim>\<open>deactivate_integration_app\<close> for one path.
  The try block holds the lookup, \<^verbatim>\<open>get_models()\<close> and the unregistering; its
  handler breaks the loop on LookupError and lets every other exception pass. The pops
  from \<^verbatim>\<open>apps.all_models\<close> come after the try block.\<close>

definition deactivate_path :: "string \<Rightarrow> host \<Rightarrow> step \<times> host" where
  "deactivate_path plugin_path h =
     (let app_name = last_component plugin_path in
      case (case get_app_config h app_name of
              Inl e \<Rightarrow> Inl e
            | Inr ac \<Rightarrow> get_models h ac) of
        Inl e \<Rightarrow> if is_lookup_error e then (Break, h) else (Raise e, h)
      | Inr models \<Rightarrow>
          (case unregister_models models (admin_registry h) [] of
             (Some e, reg, names) \<Rightarrow>
               if is_lookup_error e then (Break, h\<lparr>admin_registry := reg\<rparr>)
               else (Raise e, h\<lparr>admin_registry := reg\<rparr>)
           | (None, reg, names) \<Rightarrow>
               (let h1 = h\<lparr>admin_registry := reg\<rparr> in
                case pop_models plugin_path names (all_models h1) of
                  (Some e, am) \<Rightarrow> (Raise e, h1\<lparr>all_models := am\<rparr>)
                | (None, am) \<Rightarrow>
                    (let h2 = h1\<lparr>all_models := am\<rparr> in
                     if names \<noteq> [] \<and> app_name \<in> fst ` set (all_models h2)
                     then (Continue, h2\<lparr>all_models := AList.delete app_name (all_models h2)\<rparr>)
                     else (Continue, h2)))))"

fun deactivate_loop :: "string list \<Rightarrow> host \<Rightarrow> exn option \<times> host" where
  "deactivate_loop [] h = (None, h)"
| "deactivate_loop (plugin_path # rest) h =
     (case deactivate_path plugin_path h of
        (Continue, h') \<Rightarrow> deactivate_loop rest h'
      | (Break, h') \<Rightarrow> (None, h')
      | (Raise e, h') \<Rightarrow> (Some e, h'))"

text \<open>The for loop of \<^verbatim>\<open>_clean_installed_apps\<close>; \<^verbatim>\<open>list.remove\<close> deletes the
  first occurrence.\<close>

fun remove_paths :: "string list \<Rightarrow> string list \<Rightarrow> string list" where
  "remove_paths [] apps = apps"
| "remove_paths (p # ps) apps =
     remove_paths ps (if p \<in> set apps then remove1 p apps else apps)"

definition clean_installed_apps :: "state \<Rightarrow> state" where
  "clean_installed_apps st =
     st\<lparr>INSTALLED_APPS := remove_paths (INTEGRATION_APPS_PATHS st) (INSTALLED_APPS st),
        INTEGRATION_APPS_PATHS := []\<rparr>"

definition clean_registry :: "state \<Rightarrow> state" where
  "clean_registry st = st\<lparr>INTEGRATION_PLUGINS := [], INTEGRATION_PLUGINS_INACTIVE := []\<rparr>"

definition deactivate_integration_app :: "env \<Rightarrow> operation" where
  "deactivate_integration_app env st =
     then_do (on_host (deactivate_loop (INTEGRATION_APPS_PATHS st)) st)
       (\<lambda>st1. then_do
          (reload_apps env False ((clean_installed_apps st1)\<lparr>INTEGRATION_APPS_LOADED := False\<rparr>))
          (\<lambda>st2. (None, update_urls st2)))"

definition deactivate_plugins :: "env \<Rightarrow> operation" where
  "deactivate_plugins env st =
     then_do (deactivate_integration_app env st) deactivate_integration_globalsettings"

subsection \<open>Loading, unloading, reloading\<close>

text \<open>The try block of \<^verbatim>\<open>load_plugins\<close>.\<close>

definition load_attempt :: "env \<Rightarrow> string option \<Rightarrow> operation" where
  "load_attempt env blocked_plugin st =
     then_do (init_plugins env blocked_plugin st) (activate_plugins env False)"

text \<open>The handler of PluginLoadingError, which runs outside the try block.\<close>

definition recover :: "env \<Rightarrow> string \<Rightarrow> string \<Rightarrow> operation" where
  "recover env path msg st =
     activate_plugins env True
       (clean_installed_apps (clean_registry (log_plugin_error path msg ''load'' st)))"

datatype outcome = Returned | Raised exn | Exhausted

text \<open>
  The while loop of \<^verbatim>\<open>load_plugins\<close>. The loop has no bound of its own, so the model
  counts passes: with fuel \<open>n\<close> it makes at most \<open>n\<close> passes and answers
  \<open>Exhausted\<close> (with the state reached) when the loop would start another one.
\<close>

fun load_loop :: "nat \<Rightarrow> env \<Rightarrow> string option \<Rightarrow> state \<Rightarrow> outcome \<times> state" where
  "load_loop 0 env blocked_plugin st = (Exhausted, st)"
| "load_loop (Suc n) env blocked_plugin st =
     (case load_attempt env blocked_plugin st of
        (None, st1) \<Rightarrow> (Returned, st1)
      | (Some e, st1) \<Rightarrow>
          if is_db_error e then load_loop n env blocked_plugin st1
          else (case e of
                  PluginLoadingError path msg \<Rightarrow>
                    (case recover env path msg st1 of
                       (None, st2) \<Rightarrow> load_loop n env (Some path) st2
                     | (Some e', st2) \<Rightarrow> (Raised e', st2))
                | other \<Rightarrow> (Raised other, st1)))"

definition load_plugins :: "nat \<Rightarrow> env \<Rightarrow> state \<Rightarrow> outcome \<times> state" where
  "load_plugins n env st =
     (let maintenance = maintenance_mode st;
          st1 = (if \<not> maintenance then st\<lparr>maintenance_mode := True\<rparr> else st)
      in case load_loop n env None st1 of
           (Returned, st2) \<Rightarrow>
             (Returned, if \<not> maintenance then st2\<lparr>maintenance_mode := False\<rparr> else st2)
         | (other, st2) \<Rightarrow> (other, st2))"

definition unload_plugins :: "env \<Rightarrow> operation" where
  "unload_plugins env st =
     (let maintenance = maintenance_mode st;
          st1 = (if \<not> maintenance then st\<lparr>maintenance_mode := True\<rparr> else st)
      in then_do (deactivate_plugins env (clean_registry st1))
           (\<lambda>st2. (None, if \<not> maintenance then st2\<lparr>maintenance_mode := False\<rparr> else st2)))"

text \<open>\<^verbatim>\<open>with maintenance_mode_on():\<close> sets the flag, runs the body and restores the
  old value on every exit.\<close>

definition reload_plugins :: "nat \<Rightarrow> env \<Rightarrow> state \<Rightarrow> outcome \<times> state" where
  "reload_plugins n env st =
     (let old_value = maintenance_mode st in
      case unload_plugins env (st\<lparr>maintenance_mode := True\<rparr>) of
        (Some e, st1) \<Rightarrow> (Raised e, st1\<lparr>maintenance_mode := old_value\<rparr>)
      | (None, st1) \<Rightarrow>
          (case load_plugins n env st1 of
             (Exhausted, st2) \<Rightarrow> (Exhausted, st2)
           | (r, st2) \<Rightarrow> (r, st2\<lparr>maintenance_mode := old_value\<rparr>)))"

subsection \<open>An invariant of the module lists\<close>

text \<open>
  Outside a set \<open>B\<close> of module paths, every entry of \<^verbatim>\<open>INSTALLED_APPS\<close> is
  matched by an entry of the tracking list \<^verbatim>\<open>INTEGRATION_APPS_PATHS\<close>.
\<close>

definition apps_inv :: "string set \<Rightarrow> state \<Rightarrow> bool" where
  "apps_inv B st \<longleftrightarrow>
     (\<forall>p. p \<notin> B \<longrightarrow>
          count_list (INSTALLED_APPS st) p \<le> count_list (INTEGRATION_APPS_PATHS st) p)"

text \<open>The number of persisted records under a key.\<close>

definition records_for :: "string \<Rightarrow> plugin_config list \<Rightarrow> nat" where
  "records_for k db = length (filter (\<lambda>r. cfg_key r = k) db)"

text \<open>The lookup of \<^verbatim>\<open>get_or_create(key=k, name=n)\<close>: a record matches on both fields.\<close>

definition named :: "string \<Rightarrow> string \<Rightarrow> plugin_config \<Rightarrow> bool" where
  "named k n r \<longleftrightarrow> cfg_key r = k \<and> cfg_name r = n"

subsection \<open>Concrete configurations\<close>

text \<open>A small stand-in for Django's \<^verbatim>\<open>slugify\<close>: lower case, blanks to hyphens.\<close>

definition lower_char :: "char \<Rightarrow> char" where
  "lower_char c =
     (let n = (of_char c :: nat) in if 65 \<le> n \<and> n \<le> 90 then char_of (n + 32) else c)"

definition demo_slugify :: "string \<Rightarrow> string" where
  "demo_slugify s = map (\<lambda>c. if c = CHR '' '' then CHR ''-'' else lower_char c) s"

definition bare_app :: app_config where
  "bare_app = \<lparr>ac_models = [], ac_models_module = False, ac_has_admin = False\<rparr>"

text \<open>A host registry whose hot-swap always succeeds: one app config per module path.\<close>

definition demo_populate :: "string list \<Rightarrow> host \<Rightarrow> fault option \<times> host" where
  "demo_populate apps h =
     (None, h\<lparr>app_configs := map (\<lambda>a. (last_component a, bare_app)) apps,
              apps_ready := True, models_ready := True, ready := True\<rparr>)"

text \<open>A hot-swap that fails, with the given traceback, whenever one module is installed.\<close>

definition failing_swap ::
  "string \<Rightarrow> fault \<Rightarrow> string list \<Rightarrow> host \<Rightarrow> fault option \<times> host" where
  "failing_swap bad flt apps h =
     (if bad \<in> set apps then (Some flt, h) else demo_populate apps h)"

definition empty_host :: host where
  "empty_host = \<lparr>app_configs = [], all_models = [], admin_registry = [],
                  apps_ready = False, models_ready = False, loading = False, ready = False\<rparr>"

definition fresh_state :: state where
  "fresh_state =
     \<lparr>maintenance_mode = False, INTEGRATION_PLUGINS = [], INTEGRATION_PLUGINS_INACTIVE = [],
      INTEGRATION_PLUGIN_GLOBALSETTING = [], GLOBAL_SETTINGS = [(''SERVER_NAME'', ''InvenTree'')],
      INSTALLED_APPS = [''common'', ''plugin''], INTEGRATION_APPS_PATHS = [],
      INTEGRATION_APPS_LOADING = True, INTEGRATION_APPS_LOADED = False,
      INTEGRATION_PLUGINS_RELOADING = False, plugin_db = [], plugin_errors = [],
      hst = empty_host, urlpatterns = [HostRoute ''index'', AdminRoutes [], PluginRoutes []]\<rparr>"

definition site_packages :: fspath where
  "site_packages = [''/'', ''usr'', ''lib'', ''python3'', ''site-packages'']"

definition base_dir :: fspath where
  "base_dir = [''/'', ''home'', ''inventree'', ''InvenTree'']"

definition simple_plugin :: "string \<Rightarrow> string \<Rightarrow> plugin_class" where
  "simple_plugin nm cls =
     \<lparr>PLUGIN_NAME = nm, PLUGIN_SLUG = None, class_name = cls, is_package = False,
      init_raises = None, mixin_app = False, mixin_globalsettings = False,
      globalsettingspatterns = [], plugin_dir = base_dir @ [''plugin'', ''samples'']\<rparr>"

definition demo_env :: "bool \<Rightarrow> plugin_class list \<Rightarrow> env" where
  "demo_env testing ps =
     \<lparr>PLUGIN_TESTING = testing, ENABLE_PLUGINS_GLOBALSETTING = True, ENABLE_PLUGINS_APP = True,
      BASE_DIR = base_dir, purelib = site_packages, discovered = ps, slugify = demo_slugify,
      db_fault = None, key_unique = True, new_record_active = True, populate = demo_populate,
      set_installed_apps = demo_populate, reload_module = (\<lambda>m h. h)\<rparr>"

text \<open>Two plugins, the second of which raises in its constructor.\<close>

definition good_plugin :: plugin_class where
  "good_plugin = simple_plugin ''Good'' ''GoodPlugin''"

definition bad_plugin :: plugin_class where
  "bad_plugin = (simple_plugin ''Bad'' ''BadPlugin'')\<lparr>init_raises := Some (OtherException ''boom'')\<rparr>"

definition faulty_init_env :: env where
  "faulty_init_env = demo_env True [good_plugin, bad_plugin]"

text \<open>A packaged plugin \<^verbatim>\<open>FooPlugin\<close> of the distribution \<^verbatim>\<open>inventree_foo\<close> whose
  app module fails to import whenever it is installed.\<close>

definition foo_plugin :: plugin_class where
  "foo_plugin = (simple_plugin ''Foo'' ''FooPlugin'')
     \<lparr>is_package := True, mixin_app := True, plugin_dir := site_packages @ [''inventree_foo'']\<rparr>"

definition foo_fault :: fault where
  "foo_fault = (site_packages @ [''inventree_foo'', ''apps.py''], ''No module named foo_dep'')"

definition foo_env :: env where
  "foo_env = (demo_env False [foo_plugin])
     \<lparr>populate := failing_swap ''Foo'' foo_fault,
      set_installed_apps := failing_swap ''Foo'' foo_fault\<rparr>"

text \<open>The state in which every pass over \<^verbatim>\<open>FooPlugin\<close> ends, up to the error log.\<close>

definition stuck_state :: "(string \<times> string \<times> string) list \<Rightarrow> state" where
  "stuck_state errs = fresh_state
     \<lparr>maintenance_mode := True, INTEGRATION_APPS_LOADING := False,
      plugin_db := [\<lparr>cfg_pk = 0, cfg_key = ''foo'', cfg_name = ''Foo'', cfg_active = True\<rparr>],
      plugin_errors := errs,
      hst := snd (demo_populate [''common'', ''plugin''] empty_host)\<rparr>"

text \<open>The same distribution with a plugin class that is named like its package, next
  to a plugin without faults; the test flag is off.\<close>

definition named_like_package :: plugin_class where
  "named_like_package = foo_plugin\<lparr>class_name := ''inventree_foo''\<rparr>"

definition blockable_env :: env where
  "blockable_env = foo_env\<lparr>discovered := [named_like_package, good_plugin]\<rparr>"

text \<open>A plugin that lives in a directory below \<^verbatim>\<open>BASE_DIR\<close> and whose app module
  fails to import.\<close>

definition local_plugin :: plugin_class where
  "local_plugin = (simple_plugin ''LocalApp'' ''LocalAppPlugin'')
     \<lparr>mixin_app := True, plugin_dir := base_dir @ [''plugins'', ''localapp'']\<rparr>"

definition local_fault :: fault where
  "local_fault = (base_dir @ [''plugins'', ''localapp'', ''apps.py''], ''cannot import name x'')"

definition local_env :: env where
  "local_env = (demo_env True [local_plugin])
     \<lparr>populate := failing_swap ''plugins.localapp'' local_fault,
      set_installed_apps := failing_swap ''plugins.localapp'' local_fault\<rparr>"

text \<open>The persistence layer is not provisioned and the test flag is off.\<close>

definition unmigrated_env :: env where
  "unmigrated_env = (demo_env False [good_plugin])\<lparr>db_fault := Some OperationalError\<rparr>"

definition unmigrated_test_env :: env where
  "unmigrated_test_env = (demo_env True [good_plugin])\<lparr>db_fault := Some OperationalError\<rparr>"

text \<open>Two plugins whose different names slugify to the same key, and a third class
  that carries the name of the first.\<close>

definition foo_bar_one :: plugin_class where
  "foo_bar_one = simple_plugin ''Foo Bar'' ''FooBarOne''"

definition foo_bar_two :: plugin_class where
  "foo_bar_two = simple_plugin ''foo-bar'' ''FooBarTwo''"

definition foo_bar_again :: plugin_class where
  "foo_bar_again = simple_plugin ''Foo Bar'' ''FooBarAgain''"

definition collision_env :: env where
  "collision_env = demo_env True [foo_bar_one, foo_bar_two]"

definition same_name_env :: env where
  "same_name_env = demo_env True [foo_bar_one, foo_bar_again]"

text \<open>The same two plugins on a record table that does not declare the key unique.\<close>

definition unconstrained_env :: env where
  "unconstrained_env = collision_env\<lparr>key_unique := False\<rparr>"

text \<open>A plugin with the app mixin and one with the settings mixin.\<close>

definition app_plugin :: plugin_class where
  "app_plugin = (simple_plugin ''Shop'' ''ShopPlugin'')
     \<lparr>mixin_app := True, plugin_dir := base_dir @ [''plugins'', ''shop'']\<rparr>"

definition settings_plugin :: plugin_class where
  "settings_plugin = (simple_plugin ''Mail'' ''MailPlugin'')
     \<lparr>mixin_globalsettings := True,
      globalsettingspatterns := [(''MAIL_HOST'', ''localhost''), (''MAIL_PORT'', ''25'')]\<rparr>"

definition mixed_env :: env where
  "mixed_env = demo_env True [app_plugin, settings_plugin]"

text \<open>A host registry that, once \<^verbatim>\<open>plugins.shop\<close> is installed, holds its app
  config under the label \<^verbatim>\<open>shop\<close> with one model, registered with the model
  registry (keyed by app label) and with the admin site.\<close>

definition shop_app :: app_config where
  "shop_app = \<lparr>ac_models = [(''shop'', ''order'')], ac_models_module = True, ac_has_admin = True\<rparr>"

definition model_swap :: "string list \<Rightarrow> host \<Rightarrow> fault option \<times> host" where
  "model_swap apps h =
     (None, h\<lparr>app_configs :=
                 map (\<lambda>a. (last_component a, if a = ''plugins.shop'' then shop_app else bare_app)) apps,
              all_models := (if ''plugins.shop'' \<in> set apps then [(''shop'', [''order''])] else []),
              admin_registry := (if ''plugins.shop'' \<in> set apps then [(''shop'', ''order'')] else []),
              apps_ready := True, models_ready := True, ready := True\<rparr>)"

definition shop_env :: env where
  "shop_env = (demo_env False [app_plugin])
     \<lparr>populate := model_swap, set_installed_apps := model_swap\<rparr>"

text \<open>A host in which the app of the first tracked path is loaded with one model and
  the app of the second path was never loaded.\<close>

definition shop_host :: host where
  "shop_host =
     \<lparr>app_configs = [(''shop'', \<lparr>ac_models = [(''shop'', ''order'')], ac_models_module = True,
                                   ac_has_admin = True\<rparr>),
                       (''stock'', \<lparr>ac_models = [(''stock'', ''item'')], ac_models_module = True,
                                    ac_has_admin = True\<rparr>)],
       all_models = [(''shop'', [''order'']), (''stock'', [''item''])],
       admin_registry = [(''shop'', ''order''), (''stock'', ''item'')],
       apps_ready = True, models_ready = True, loading = False, ready = True\<rparr>"

text \<open>Two plugins track option sets that share the key \<^verbatim>\<open>MAIL_HOST\<close>.\<close>

definition tracked_state :: state where
  "tracked_state = fresh_state
     \<lparr>INTEGRATION_PLUGIN_GLOBALSETTING :=
        [(''mail'', [(''MAIL_HOST'', ''localhost''), (''MAIL_PORT'', ''25'')]),
         (''alert'', [(''MAIL_HOST'', ''localhost''), (''ALERT_LEVEL'', ''3'')])],
      GLOBAL_SETTINGS :=
        [(''SERVER_NAME'', ''InvenTree''), (''MAIL_HOST'', ''localhost''),
         (''MAIL_PORT'', ''25''), (''ALERT_LEVEL'', ''3'')]\<rparr>"

section \<open>Properties\<close>

subsection \<open>Sequencing and frame lemmas\<close>

lemma then_do_simps [simp]:
  "then_do (None, st) op = op st"
  "then_do (Some e, st) op = (Some e, st)"
  by (simp_all add: then_do_def)

lemma snd_then_do:
  "snd (then_do r op) = (if fst r = None then snd (op (snd r)) else snd r)"
  by (cases r) (auto simp: then_do_def)

lemma fst_then_do:
  "fst (then_do r op) = (if fst r = None then fst (op (snd r)) else fst r)"
  by (cases r) (auto simp: then_do_def)

lemma snd_on_host: "snd (on_host g st) = st\<lparr>hst := snd (g (hst st))\<rparr>"
  by (simp add: on_host_def split: prod.split)

lemma fst_on_host: "fst (on_host g st) = fst (g (hst st))"
  by (simp add: on_host_def split: prod.split)

lemma reload_apps_frame [simp]:
  "INSTALLED_APPS (snd (reload_apps env f st)) = INSTALLED_APPS st"
  "INTEGRATION_APPS_PATHS (snd (reload_apps env f st)) = INTEGRATION_APPS_PATHS st"
  "maintenance_mode (snd (reload_apps env f st)) = maintenance_mode st"
  "INTEGRATION_PLUGINS (snd (reload_apps env f st)) = INTEGRATION_PLUGINS st"
  "INTEGRATION_PLUGINS_INACTIVE (snd (reload_apps env f st)) = INTEGRATION_PLUGINS_INACTIVE st"
  by (simp_all add: reload_apps_def snd_then_do snd_on_host)

lemma reload_after_change_frame [simp]:
  "INSTALLED_APPS (snd (reload_after_change env f st)) = INSTALLED_APPS st"
  "INTEGRATION_APPS_PATHS (snd (reload_after_change env f st)) = INTEGRATION_APPS_PATHS st"
  "maintenance_mode (snd (reload_after_change env f st)) = maintenance_mode st"
  "INTEGRATION_PLUGINS (snd (reload_after_change env f st)) = INTEGRATION_PLUGINS st"
  "INTEGRATION_PLUGINS_INACTIVE (snd (reload_after_change env f st)) = INTEGRATION_PLUGINS_INACTIVE st"
  by (simp_all add: reload_after_change_def snd_then_do update_urls_def
      reregister_contrib_apps_def snd_on_host)

lemma add_apps_frame [simp]:
  "maintenance_mode (fst (add_apps env ps st ch)) = maintenance_mode st"
  "INTEGRATION_PLUGINS (fst (add_apps env ps st ch)) = INTEGRATION_PLUGINS st"
  "INTEGRATION_PLUGINS_INACTIVE (fst (add_apps env ps st ch)) = INTEGRATION_PLUGINS_INACTIVE st"
  by (induction env ps st ch rule: add_apps.induct; simp add: Let_def)+

lemma add_apps_append:
  "\<exists>new. INSTALLED_APPS (fst (add_apps env ps st ch)) = INSTALLED_APPS st @ new \<and>
         INTEGRATION_APPS_PATHS (fst (add_apps env ps st ch)) = INTEGRATION_APPS_PATHS st @ new \<and>
         distinct new \<and> set new \<inter> set (INSTALLED_APPS st) = {}"
proof (induction ps arbitrary: st ch)
  case Nil
  then show ?case by simp
next
  case (Cons a ps)
  obtain sl p where a: "a = (sl, p)" by (cases a)
  show ?case
  proof (cases "mixin_app (plugin_cls p) \<and> get_plugin_path env p \<notin> set (INSTALLED_APPS st)")
    case False
    then show ?thesis using Cons.IH [of st ch] by (auto simp: a Let_def)
  next
    case True
    let ?q = "get_plugin_path env p"
    let ?st = "st\<lparr>INSTALLED_APPS := INSTALLED_APPS st @ [?q],
                    INTEGRATION_APPS_PATHS := INTEGRATION_APPS_PATHS st @ [?q]\<rparr>"
    from Cons.IH [of ?st True] obtain new where
      n: "INSTALLED_APPS (fst (add_apps env ps ?st True)) = INSTALLED_APPS ?st @ new"
         "INTEGRATION_APPS_PATHS (fst (add_apps env ps ?st True)) = INTEGRATION_APPS_PATHS ?st @ new"
         "distinct new" "set new \<inter> set (INSTALLED_APPS ?st) = {}"
      by blast
    have "add_apps env (a # ps) st ch = add_apps env ps ?st True"
      using True by (simp add: a Let_def)
    then show ?thesis using n True
      by (intro exI [of _ "?q # new"]) auto
  qed
qed




lemma init_plugin_frame [simp]:
  "maintenance_mode (snd (init_plugin env d c st)) = maintenance_mode st"
  "INSTALLED_APPS (snd (init_plugin env d c st)) = INSTALLED_APPS st"
  "INTEGRATION_APPS_PATHS (snd (init_plugin env d c st)) = INTEGRATION_APPS_PATHS st"
  by (simp_all add: init_plugin_def Let_def log_plugin_error_def
      split: sum.split prod.split option.split)

lemma init_loop_frame [simp]:
  "maintenance_mode (snd (init_loop env d cs st)) = maintenance_mode st"
  "INSTALLED_APPS (snd (init_loop env d cs st)) = INSTALLED_APPS st"
  "INTEGRATION_APPS_PATHS (snd (init_loop env d cs st)) = INTEGRATION_APPS_PATHS st"
  by (induction cs arbitrary: st; simp add: snd_then_do)+

lemma init_plugins_frame [simp]:
  "maintenance_mode (snd (init_plugins env d st)) = maintenance_mode st"
  "INSTALLED_APPS (snd (init_plugins env d st)) = INSTALLED_APPS st"
  "INTEGRATION_APPS_PATHS (snd (init_plugins env d st)) = INTEGRATION_APPS_PATHS st"
  by (simp_all add: init_plugins_def)

lemma bind_globalsettings_frame [simp]:
  "maintenance_mode (bind_globalsettings ps st) = maintenance_mode st"
  "INSTALLED_APPS (bind_globalsettings ps st) = INSTALLED_APPS st"
  "INTEGRATION_APPS_PATHS (bind_globalsettings ps st) = INTEGRATION_APPS_PATHS st"
  "INTEGRATION_PLUGINS (bind_globalsettings ps st) = INTEGRATION_PLUGINS st"
  "INTEGRATION_PLUGINS_INACTIVE (bind_globalsettings ps st) = INTEGRATION_PLUGINS_INACTIVE st"
  by (induction ps st rule: bind_globalsettings.induct; simp add: Let_def)+

lemma activate_integration_globalsettings_frame [simp]:
  "maintenance_mode (activate_integration_globalsettings env ps st) = maintenance_mode st"
  "INSTALLED_APPS (activate_integration_globalsettings env ps st) = INSTALLED_APPS st"
  "INTEGRATION_APPS_PATHS (activate_integration_globalsettings env ps st) = INTEGRATION_APPS_PATHS st"
  "INTEGRATION_PLUGINS (activate_integration_globalsettings env ps st) = INTEGRATION_PLUGINS st"
  "INTEGRATION_PLUGINS_INACTIVE (activate_integration_globalsettings env ps st) = INTEGRATION_PLUGINS_INACTIVE st"
  by (simp_all add: activate_integration_globalsettings_def)

lemma activate_integration_app_frame [simp]:
  "maintenance_mode (snd (activate_integration_app env ps f st)) = maintenance_mode st"
  "INTEGRATION_PLUGINS (snd (activate_integration_app env ps f st)) = INTEGRATION_PLUGINS st"
  "INTEGRATION_PLUGINS_INACTIVE (snd (activate_integration_app env ps f st)) = INTEGRATION_PLUGINS_INACTIVE st"
  by (simp_all add: activate_integration_app_def Let_def)

lemma activate_plugins_frame [simp]:
  "maintenance_mode (snd (activate_plugins env f st)) = maintenance_mode st"
  "INTEGRATION_PLUGINS (snd (activate_plugins env f st)) = INTEGRATION_PLUGINS st"
  "INTEGRATION_PLUGINS_INACTIVE (snd (activate_plugins env f st)) = INTEGRATION_PLUGINS_INACTIVE st"
  by (simp_all add: activate_plugins_def Let_def)

lemma clean_frame [simp]:
  "maintenance_mode (clean_installed_apps st) = maintenance_mode st"
  "maintenance_mode (clean_registry st) = maintenance_mode st"
  "maintenance_mode (log_plugin_error k m s st) = maintenance_mode st"
  "INSTALLED_APPS (clean_registry st) = INSTALLED_APPS st"
  "INTEGRATION_APPS_PATHS (clean_registry st) = INTEGRATION_APPS_PATHS st"
  "INSTALLED_APPS (log_plugin_error k m s st) = INSTALLED_APPS st"
  "INTEGRATION_APPS_PATHS (log_plugin_error k m s st) = INTEGRATION_APPS_PATHS st"
  "INTEGRATION_APPS_PATHS (clean_installed_apps st) = []"
  "INTEGRATION_PLUGINS (clean_installed_apps st) = INTEGRATION_PLUGINS st"
  "INTEGRATION_PLUGINS_INACTIVE (clean_installed_apps st) = INTEGRATION_PLUGINS_INACTIVE st"
  "INTEGRATION_PLUGINS (clean_registry st) = []"
  "INTEGRATION_PLUGINS_INACTIVE (clean_registry st) = []"
  by (simp_all add: clean_installed_apps_def clean_registry_def log_plugin_error_def)

lemma load_attempt_frame [simp]:
  "maintenance_mode (snd (load_attempt env b st)) = maintenance_mode st"
  by (simp add: load_attempt_def snd_then_do)

lemma recover_frame [simp]:
  "maintenance_mode (snd (recover env p m st)) = maintenance_mode st"
  by (simp add: recover_def)

lemma load_loop_maintenance:
  "maintenance_mode (snd (load_loop n env b st)) = maintenance_mode st"
proof (induction n arbitrary: b st)
  case 0
  then show ?case by simp
next
  case (Suc n)
  obtain r st1 where a: "load_attempt env b st = (r, st1)" by (cases "load_attempt env b st")
  have m1: "maintenance_mode st1 = maintenance_mode st"
    using load_attempt_frame [of env b st] a by simp
  show ?case
  proof (cases r)
    case None
    then show ?thesis using a m1 by simp
  next
    case (Some e)
    show ?thesis
    proof (cases "is_db_error e")
      case True
      then show ?thesis using a Some m1 Suc.IH by simp
    next
      case False
      show ?thesis
      proof (cases e)
        case (PluginLoadingError path msg)
        obtain r2 st2 where rc: "recover env path msg st1 = (r2, st2)"
          by (cases "recover env path msg st1")
        have m2: "maintenance_mode st2 = maintenance_mode st"
          using recover_frame [of env path msg st1] rc m1 by simp
        show ?thesis using a Some PluginLoadingError rc m2 Suc.IH
          by (cases r2) simp_all
      qed (use a Some False m1 in simp_all)
    qed
  qed
qed

lemma load_loop_invariant:
  assumes att: "\<And>b s. P s \<Longrightarrow> P (snd (load_attempt env b s))"
      and rec: "\<And>p m s. P s \<Longrightarrow> P (snd (recover env p m s))"
      and init: "P st"
  shows "P (snd (load_loop n env b st))"
  using init
proof (induction n arbitrary: b st)
  case 0
  then show ?case by simp
next
  case (Suc n)
  obtain r st1 where a: "load_attempt env b st = (r, st1)" by (cases "load_attempt env b st")
  have p1: "P st1" using att [OF Suc.prems, of b] a by simp
  show ?case
  proof (cases r)
    case None
    then show ?thesis using a p1 by simp
  next
    case (Some e)
    show ?thesis
    proof (cases "is_db_error e")
      case True
      then show ?thesis using a Some Suc.IH [OF p1] by simp
    next
      case False
      show ?thesis
      proof (cases e)
        case (PluginLoadingError path msg)
        obtain r2 st2 where rc: "recover env path msg st1 = (r2, st2)"
          by (cases "recover env path msg st1")
        have p2: "P st2" using rec [OF p1, of path msg] rc by simp
        show ?thesis using a Some PluginLoadingError rc p2 Suc.IH [OF p2]
          by (cases r2) simp_all
      qed (use a Some False p1 in simp_all)
    qed
  qed
qed

lemma deactivate_globalsettings_frame [simp]:
  "maintenance_mode (snd (deactivate_integration_globalsettings st)) = maintenance_mode st"
  "INSTALLED_APPS (snd (deactivate_integration_globalsettings st)) = INSTALLED_APPS st"
  "INTEGRATION_APPS_PATHS (snd (deactivate_integration_globalsettings st)) = INTEGRATION_APPS_PATHS st"
  "INTEGRATION_PLUGINS (snd (deactivate_integration_globalsettings st)) = INTEGRATION_PLUGINS st"
  "INTEGRATION_PLUGINS_INACTIVE (snd (deactivate_integration_globalsettings st)) = INTEGRATION_PLUGINS_INACTIVE st"
  by (simp_all add: deactivate_integration_globalsettings_def Let_def split: prod.split option.split)

lemma update_urls_frame [simp]:
  "maintenance_mode (update_urls st) = maintenance_mode st"
  "INSTALLED_APPS (update_urls st) = INSTALLED_APPS st"
  "INTEGRATION_APPS_PATHS (update_urls st) = INTEGRATION_APPS_PATHS st"
  "INTEGRATION_PLUGINS (update_urls st) = INTEGRATION_PLUGINS st"
  "INTEGRATION_PLUGINS_INACTIVE (update_urls st) = INTEGRATION_PLUGINS_INACTIVE st"
  by (simp_all add: update_urls_def)

lemma deactivate_integration_app_frame [simp]:
  "maintenance_mode (snd (deactivate_integration_app env st)) = maintenance_mode st"
  "INTEGRATION_PLUGINS (snd (deactivate_integration_app env st)) = INTEGRATION_PLUGINS st"
  "INTEGRATION_PLUGINS_INACTIVE (snd (deactivate_integration_app env st)) = INTEGRATION_PLUGINS_INACTIVE st"
  by (simp_all add: deactivate_integration_app_def snd_then_do snd_on_host)

lemma deactivate_plugins_frame [simp]:
  "maintenance_mode (snd (deactivate_plugins env st)) = maintenance_mode st"
  "INTEGRATION_PLUGINS (snd (deactivate_plugins env st)) = INTEGRATION_PLUGINS st"
  "INTEGRATION_PLUGINS_INACTIVE (snd (deactivate_plugins env st)) = INTEGRATION_PLUGINS_INACTIVE st"
  by (simp_all add: deactivate_plugins_def snd_then_do)

subsection \<open>The module binder is idempotent\<close>


subsection \<open>Deactivation of the settings binder\<close>

lemma dict_update_keys:
  "fst ` set (dict_update d other) = fst ` set d \<union> fst ` set other"
  unfolding dict_update_def
proof (induction other arbitrary: d)
  case Nil then show ?case by simp
next
  case (Cons kv other)
  have "fst ` set (AList.update (fst kv) (snd kv) d) = insert (fst kv) (fst ` set d)"
    using AList.dom_update [of "fst kv" "snd kv" d] by simp
  then show ?case using Cons.IH [of "AList.update (fst kv) (snd kv) d"] by auto
qed

lemma dict_update_distinct:
  "distinct (map fst d) \<Longrightarrow> distinct (map fst (dict_update d other))"
  unfolding dict_update_def
  by (induction other arbitrary: d) (simp_all add: AList.distinct_update)

lemma collect_fold_keys:
  "fst ` set (fold (\<lambda>entry acc. dict_update acc (snd entry)) tracked acc0)
     = fst ` set acc0 \<union> (\<Union>e \<in> set tracked. fst ` set (snd e))"
proof (induction tracked arbitrary: acc0)
  case Nil then show ?case by simp
next
  case (Cons e tracked)
  show ?case using Cons.IH [of "dict_update acc0 (snd e)"]
    by (simp add: dict_update_keys Un_assoc)
qed

lemma collect_fold_distinct:
  "distinct (map fst acc0) \<Longrightarrow>
   distinct (map fst (fold (\<lambda>entry acc. dict_update acc (snd entry)) tracked acc0))"
  by (induction tracked arbitrary: acc0) (simp_all add: dict_update_distinct)

lemma collect_settings_keys:
  "set (map fst (collect_settings tracked)) = (\<Union>e \<in> set tracked. fst ` set (snd e))"
  "distinct (map fst (collect_settings tracked))"
  using collect_fold_keys [of tracked "[]"] collect_fold_distinct [of "[]" tracked]
  by (simp_all add: collect_settings_def)

lemma delete_as_filter: "AList.delete k cat = filter (\<lambda>kv. fst kv \<noteq> k) cat"
  by (induction cat) auto

lemma pop_settings_present:
  "distinct ks \<Longrightarrow> set ks \<subseteq> fst ` set cat \<Longrightarrow>
   pop_settings ks cat = (None, filter (\<lambda>kv. fst kv \<notin> set ks) cat)"
proof (induction ks arbitrary: cat)
  case Nil then show ?case by simp
next
  case (Cons k ks)
  have sub: "fst ` set (AList.delete k cat) = fst ` set cat - {k}"
    by (auto simp: delete_as_filter image_iff)
  have "set ks \<subseteq> fst ` set (AList.delete k cat)"
    using Cons.prems unfolding sub by auto
  then have "pop_settings ks (AList.delete k cat)
               = (None, filter (\<lambda>kv. fst kv \<notin> set ks) (AList.delete k cat))"
    using Cons.IH Cons.prems(1) by simp
  moreover have "filter (\<lambda>kv. fst kv \<notin> set ks) (AList.delete k cat)
                   = filter (\<lambda>kv. fst kv \<notin> set (k # ks)) cat"
    by (auto simp: delete_as_filter intro: filter_cong)
  ultimately show ?case using Cons.prems(2) by simp
qed

lemma pop_settings_missing:
  "distinct ks \<Longrightarrow> \<not> set ks \<subseteq> fst ` set cat \<Longrightarrow>
   \<exists>k. k \<in> set ks \<and> k \<notin> fst ` set cat \<and> fst (pop_settings ks cat) = Some (KeyError k)"
proof (induction ks arbitrary: cat)
  case Nil then show ?case by simp
next
  case (Cons k ks)
  show ?case
  proof (cases "k \<in> fst ` set cat")
    case False
    then show ?thesis by (intro exI [of _ k]) simp
  next
    case True
    have sub: "fst ` set (AList.delete k cat) = fst ` set cat - {k}"
      by (auto simp: delete_as_filter image_iff)
    have "\<not> set ks \<subseteq> fst ` set (AList.delete k cat)"
      using Cons.prems True unfolding sub by auto
    moreover have "distinct ks" using Cons.prems(1) by simp
    ultimately have "\<exists>k'. k' \<in> set ks \<and> k' \<notin> fst ` set (AList.delete k cat) \<and>
        fst (pop_settings ks (AList.delete k cat)) = Some (KeyError k')"
      by (rule Cons.IH [rotated])
    then obtain k' where k': "k' \<in> set ks" "k' \<notin> fst ` set (AList.delete k cat)"
        "fst (pop_settings ks (AList.delete k cat)) = Some (KeyError k')"
      by blast
    have "k' \<noteq> k" using k'(1) Cons.prems(1) by auto
    then have "k' \<notin> fst ` set cat" using k'(2) sub by auto
    then show ?thesis using k' True by (intro exI [of _ k']) simp
  qed
qed

text \<open>
  C10. \<^verbatim>\<open>deactivate_integration_globalsettings\<close> pops every key of the union of
  the tracked option sets, each key once (the collected dict holds a shared key once).
  If every such key is present in the catalog, the call returns normally, the catalog
  loses exactly those keys and the tracking map is reset to empty. If some key is
  missing, the call raises KeyError for a missing key and the tracking map is not reset.
\<close>

theorem deactivate_integration_globalsettings_total_iff_present:
  fixes st :: state
  defines "tracked \<equiv> INTEGRATION_PLUGIN_GLOBALSETTING st"
  defines "ks \<equiv> map fst (collect_settings (INTEGRATION_PLUGIN_GLOBALSETTING st))"
  shows "set ks = (\<Union>e \<in> set tracked. fst ` set (snd e)) \<and> distinct ks
    \<and> (set ks \<subseteq> fst ` set (GLOBAL_SETTINGS st) \<longrightarrow>
         deactivate_integration_globalsettings st =
           (None, st\<lparr>GLOBAL_SETTINGS := filter (\<lambda>kv. fst kv \<notin> set ks) (GLOBAL_SETTINGS st),
                     INTEGRATION_PLUGIN_GLOBALSETTING := []\<rparr>))
    \<and> (\<not> set ks \<subseteq> fst ` set (GLOBAL_SETTINGS st) \<longrightarrow>
         (\<exists>k. k \<in> set ks \<and> k \<notin> fst ` set (GLOBAL_SETTINGS st)
              \<and> fst (deactivate_integration_globalsettings st) = Some (KeyError k)
              \<and> INTEGRATION_PLUGIN_GLOBALSETTING (snd (deactivate_integration_globalsettings st))
                  = tracked))"
proof -
  have keys: "set ks = (\<Union>e \<in> set tracked. fst ` set (snd e))" "distinct ks"
    using collect_settings_keys [of tracked] by (simp_all add: ks_def tracked_def)
  have ok: "deactivate_integration_globalsettings st =
           (None, st\<lparr>GLOBAL_SETTINGS := filter (\<lambda>kv. fst kv \<notin> set ks) (GLOBAL_SETTINGS st),
                     INTEGRATION_PLUGIN_GLOBALSETTING := []\<rparr>)"
    if "set ks \<subseteq> fst ` set (GLOBAL_SETTINGS st)"
    using pop_settings_present [OF keys(2) that]
    by (simp add: deactivate_integration_globalsettings_def ks_def)
  have bad: "\<exists>k. k \<in> set ks \<and> k \<notin> fst ` set (GLOBAL_SETTINGS st)
              \<and> fst (deactivate_integration_globalsettings st) = Some (KeyError k)
              \<and> INTEGRATION_PLUGIN_GLOBALSETTING (snd (deactivate_integration_globalsettings st))
                  = tracked"
    if missing: "\<not> set ks \<subseteq> fst ` set (GLOBAL_SETTINGS st)"
  proof -
    obtain k where k: "k \<in> set ks" "k \<notin> fst ` set (GLOBAL_SETTINGS st)"
        "fst (pop_settings ks (GLOBAL_SETTINGS st)) = Some (KeyError k)"
      using pop_settings_missing [OF keys(2) missing] by blast
    obtain cat where "pop_settings ks (GLOBAL_SETTINGS st) = (Some (KeyError k), cat)"
      using k(3) by (cases "pop_settings ks (GLOBAL_SETTINGS st)") auto
    then have "fst (deactivate_integration_globalsettings st) = Some (KeyError k)"
        "INTEGRATION_PLUGIN_GLOBALSETTING (snd (deactivate_integration_globalsettings st)) = tracked"
      by (simp_all add: deactivate_integration_globalsettings_def ks_def tracked_def)
    then show ?thesis using k by blast
  qed
  show ?thesis using keys ok bad by blast
qed

text \<open>The theorem at a catalog that holds every tracked key, and at an empty catalog.\<close>

theorem deactivate_integration_globalsettings_witness:
  "deactivate_integration_globalsettings tracked_state =
     (None, tracked_state\<lparr>GLOBAL_SETTINGS := [(''SERVER_NAME'', ''InvenTree'')],
                          INTEGRATION_PLUGIN_GLOBALSETTING := []\<rparr>)
   \<and> fst (deactivate_integration_globalsettings (tracked_state\<lparr>GLOBAL_SETTINGS := []\<rparr>))
       = Some (KeyError ''MAIL_HOST'')
   \<and> INTEGRATION_PLUGIN_GLOBALSETTING
         (snd (deactivate_integration_globalsettings (tracked_state\<lparr>GLOBAL_SETTINGS := []\<rparr>)))
       = INTEGRATION_PLUGIN_GLOBALSETTING tracked_state"
proof -
  have ks: "map fst (collect_settings (INTEGRATION_PLUGIN_GLOBALSETTING tracked_state))
              = [''MAIL_HOST'', ''MAIL_PORT'', ''ALERT_LEVEL'']"
    by code_simp
  have cat: "GLOBAL_SETTINGS tracked_state =
        [(''SERVER_NAME'', ''InvenTree''), (''MAIL_HOST'', ''localhost''),
         (''MAIL_PORT'', ''25''), (''ALERT_LEVEL'', ''3'')]"
    by (simp add: tracked_state_def)
  have present: "set (map fst (collect_settings (INTEGRATION_PLUGIN_GLOBALSETTING tracked_state)))
                   \<subseteq> fst ` set (GLOBAL_SETTINGS tracked_state)"
    unfolding ks cat by simp
  have missing: "\<not> set (map fst (collect_settings (INTEGRATION_PLUGIN_GLOBALSETTING
                      (tracked_state\<lparr>GLOBAL_SETTINGS := []\<rparr>))))
                   \<subseteq> fst ` set (GLOBAL_SETTINGS (tracked_state\<lparr>GLOBAL_SETTINGS := []\<rparr>))"
    using ks by simp
  have first: "fst (pop_settings [''MAIL_HOST'', ''MAIL_PORT'', ''ALERT_LEVEL''] [])
                 = Some (KeyError ''MAIL_HOST'')"
    by simp
  have a: "deactivate_integration_globalsettings tracked_state =
     (None, tracked_state\<lparr>GLOBAL_SETTINGS := [(''SERVER_NAME'', ''InvenTree'')],
                          INTEGRATION_PLUGIN_GLOBALSETTING := []\<rparr>)"
    using deactivate_integration_globalsettings_total_iff_present [of tracked_state] present
    unfolding ks cat by simp
  have b: "\<exists>k. fst (deactivate_integration_globalsettings (tracked_state\<lparr>GLOBAL_SETTINGS := []\<rparr>))
              = Some (KeyError k)
            \<and> INTEGRATION_PLUGIN_GLOBALSETTING
                 (snd (deactivate_integration_globalsettings (tracked_state\<lparr>GLOBAL_SETTINGS := []\<rparr>)))
               = INTEGRATION_PLUGIN_GLOBALSETTING tracked_state"
  proof -
    have "\<exists>k. k \<in> set (map fst (collect_settings (INTEGRATION_PLUGIN_GLOBALSETTING
                      (tracked_state\<lparr>GLOBAL_SETTINGS := []\<rparr>))))
            \<and> k \<notin> fst ` set (GLOBAL_SETTINGS (tracked_state\<lparr>GLOBAL_SETTINGS := []\<rparr>))
            \<and> fst (deactivate_integration_globalsettings (tracked_state\<lparr>GLOBAL_SETTINGS := []\<rparr>))
                = Some (KeyError k)
            \<and> INTEGRATION_PLUGIN_GLOBALSETTING
                 (snd (deactivate_integration_globalsettings (tracked_state\<lparr>GLOBAL_SETTINGS := []\<rparr>)))
               = INTEGRATION_PLUGIN_GLOBALSETTING (tracked_state\<lparr>GLOBAL_SETTINGS := []\<rparr>)"
      using deactivate_integration_globalsettings_total_iff_present
            [of "tracked_state\<lparr>GLOBAL_SETTINGS := []\<rparr>"] missing
      by blast
    then show ?thesis by auto
  qed
  have c: "fst (deactivate_integration_globalsettings (tracked_state\<lparr>GLOBAL_SETTINGS := []\<rparr>))
             = Some (KeyError ''MAIL_HOST'')"
    using ks first
    by (simp add: deactivate_integration_globalsettings_def Let_def split: prod.split option.split)
  show ?thesis using a b c by auto
qed

subsection \<open>A failed lookup ends the deactivation loop\<close>

lemma deactivate_path_break:
  "get_app_config h (last_component p) = Inl LookupError \<Longrightarrow> deactivate_path p h = (Break, h)"
  by (simp add: deactivate_path_def)

lemma deactivate_loop_break:
  "deactivate_loop before h = (None, h1) \<Longrightarrow>
   get_app_config h1 (last_component p) = Inl LookupError \<Longrightarrow>
   deactivate_loop (before @ p # after) h = (None, h1)"
proof (induction before arbitrary: h)
  case Nil
  then show ?case by (simp add: deactivate_path_break)
next
  case (Cons x xs)
  obtain s h' where step: "deactivate_path x h = (s, h')" by (cases "deactivate_path x h")
  show ?case
  proof (cases s)
    case Continue
    then show ?thesis using Cons step by simp
  next
    case Break
    then show ?thesis using Cons.prems step by simp
  next
    case (Raise e)
    then show ?thesis using Cons.prems step by simp
  qed
qed

lemma reregister_loop_break:
  "get_app_config (snd (reregister_loop env before h)) (last_component p) = Inl LookupError \<Longrightarrow>
   reregister_loop env (before @ p # after) h = reregister_loop env before h"
proof (induction before arbitrary: h)
  case Nil
  then show ?case by simp
next
  case (Cons x xs)
  show ?case
  proof (cases "get_app_config h (last_component x)")
    case (Inl e)
    then show ?thesis by simp
  next
    case (Inr ac)
    obtain r h' where step: "reregister_app env (last_component x) ac h = (r, h')"
      by (cases "reregister_app env (last_component x) ac h")
    show ?thesis
    proof (cases r)
      case None
      then show ?thesis using Cons Inr step by simp
    next
      case (Some e)
      then show ?thesis using Inr step by simp
    qed
  qed
qed

text \<open>
  C9. If the lookup of the app configuration fails for a tracked path (LookupError),
  the loop of \<^verbatim>\<open>deactivate_integration_app\<close> breaks: the paths after the failing
  one are not visited, so the result is the host reached before the failing path, with
  its admin registry and its model registry as they were at that point. The loop of
  \<^verbatim>\<open>_reregister_contrib_apps\<close> breaks in the same way.
\<close>

theorem lookup_error_breaks_deactivation:
  assumes "deactivate_loop before h = (None, h1)"
      and "get_app_config h1 (last_component p) = Inl LookupError"
      and "get_app_config (snd (reregister_loop env before g)) (last_component p) = Inl LookupError"
  shows "deactivate_loop (before @ p # after) h = (None, h1)
       \<and> admin_registry (snd (deactivate_loop (before @ p # after) h)) = admin_registry h1
       \<and> all_models (snd (deactivate_loop (before @ p # after) h)) = all_models h1
       \<and> reregister_loop env (before @ p # after) g = reregister_loop env before g"
  using deactivate_loop_break [OF assms(1,2)] reregister_loop_break [OF assms(3)] by simp

text \<open>The theorem at three tracked paths of which the second was never loaded: the
  model of the third stays registered.\<close>

theorem lookup_error_breaks_deactivation_witness:
  "deactivate_loop [''shop'', ''ghost'', ''stock''] shop_host =
     (None, shop_host\<lparr>all_models := [(''stock'', [''item''])],
                      admin_registry := [(''stock'', ''item'')]\<rparr>)
   \<and> (''stock'', ''item'') \<in> set (admin_registry
         (snd (deactivate_loop [''shop'', ''ghost'', ''stock''] shop_host)))
   \<and> all_models (snd (deactivate_loop [''shop'', ''ghost'', ''stock''] shop_host))
       = [(''stock'', [''item''])]
   \<and> reregister_loop (demo_env True []) [''shop'', ''ghost'', ''stock''] shop_host
       = reregister_loop (demo_env True []) [''shop''] shop_host"
proof -
  let ?h1 = "shop_host\<lparr>all_models := [(''stock'', [''item''])],
                       admin_registry := [(''stock'', ''item'')]\<rparr>"
  have a: "deactivate_loop [''shop''] shop_host = (None, ?h1)" by code_simp
  have b: "get_app_config ?h1 (last_component ''ghost'') = Inl LookupError" by code_simp
  have c: "get_app_config (snd (reregister_loop (demo_env True []) [''shop''] shop_host))
             (last_component ''ghost'') = Inl LookupError" by code_simp
  show ?thesis
    using lookup_error_breaks_deactivation [OF a b c, of "[''stock'']"] by simp
qed

subsection \<open>The maintenance flag\<close>

lemma load_plugins_restores:
  "fst (load_plugins n env st) = Returned \<Longrightarrow>
   maintenance_mode (snd (load_plugins n env st)) = maintenance_mode st"
proof -
  assume ret: "fst (load_plugins n env st) = Returned"
  let ?st1 = "if \<not> maintenance_mode st then st\<lparr>maintenance_mode := True\<rparr> else st"
  obtain r st2 where l: "load_loop n env None ?st1 = (r, st2)"
    by (cases "load_loop n env None ?st1")
  have "maintenance_mode st2 = maintenance_mode ?st1"
    using load_loop_maintenance [of n env None ?st1] l by simp
  moreover have "r = Returned"
    using ret l by (cases r) (simp_all add: load_plugins_def Let_def)
  ultimately show ?thesis using l by (simp add: load_plugins_def Let_def)
qed

lemma unload_plugins_restores:
  "fst (unload_plugins env st) = None \<Longrightarrow>
   maintenance_mode (snd (unload_plugins env st)) = maintenance_mode st"
  by (simp add: unload_plugins_def Let_def snd_then_do fst_then_do split: if_splits)

lemma unload_plugins_keeps_on:
  "maintenance_mode st \<Longrightarrow> maintenance_mode (snd (unload_plugins env st))"
  by (simp add: unload_plugins_def Let_def snd_then_do)

lemma load_plugins_keeps_on:
  "maintenance_mode st \<Longrightarrow> maintenance_mode (snd (load_plugins n env st))"
proof -
  assume on: "maintenance_mode st"
  obtain r st2 where l: "load_loop n env None st = (r, st2)"
    by (cases "load_loop n env None st")
  have "maintenance_mode st2" using load_loop_maintenance [of n env None st] l on by simp
  then show ?thesis using l on by (cases r) (simp_all add: load_plugins_def Let_def)
qed

lemma reload_plugins_restores:
  "fst (reload_plugins n env st) = Returned \<Longrightarrow>
   maintenance_mode (snd (reload_plugins n env st)) = maintenance_mode st"
proof -
  assume ret: "fst (reload_plugins n env st) = Returned"
  obtain r1 st1 where u: "unload_plugins env (st\<lparr>maintenance_mode := True\<rparr>) = (r1, st1)"
    by (cases "unload_plugins env (st\<lparr>maintenance_mode := True\<rparr>)")
  obtain r2 st2 where l: "load_plugins n env st1 = (r2, st2)"
    by (cases "load_plugins n env st1")
  show ?thesis using ret u l
    by (cases r1; cases r2) (simp_all add: reload_plugins_def Let_def)
qed

lemma load_plugins_on_unless_returned:
  "fst (load_plugins n env st) \<noteq> Returned \<Longrightarrow> maintenance_mode (snd (load_plugins n env st))"
proof -
  assume open_end: "fst (load_plugins n env st) \<noteq> Returned"
  let ?st1 = "if \<not> maintenance_mode st then st\<lparr>maintenance_mode := True\<rparr> else st"
  obtain r st2 where l: "load_loop n env None ?st1 = (r, st2)"
    by (cases "load_loop n env None ?st1")
  have "maintenance_mode st2 = maintenance_mode ?st1"
    using load_loop_maintenance [of n env None ?st1] l by simp
  then have on: "maintenance_mode st2" by simp
  have "r \<noteq> Returned" using open_end l by (cases r) (simp_all add: load_plugins_def Let_def)
  then show ?thesis using l on by (cases r) (simp_all add: load_plugins_def Let_def)
qed

text \<open>
  C5. Whenever \<^verbatim>\<open>load_plugins\<close>, \<^verbatim>\<open>unload_plugins\<close> or
  \<^verbatim>\<open>reload_plugins\<close> returns normally, the maintenance flag has the value it had
  before the call, also when plugin faults were handled inside the loop. Whatever the
  flag was before the call, it is on in every state in which \<^verbatim>\<open>load_plugins\<close> has
  not returned: in the state after any number of passes in which the loop is still
  running, and in the state in which an exception leaves the loop. Within a pass, the
  try block and the handler of PluginLoadingError, started with the flag on, end with
  the flag on.
\<close>

theorem maintenance_mode_restored:
  "(fst (load_plugins n env st) = Returned \<longrightarrow>
      maintenance_mode (snd (load_plugins n env st)) = maintenance_mode st)
   \<and> (fst (unload_plugins env st) = None \<longrightarrow>
      maintenance_mode (snd (unload_plugins env st)) = maintenance_mode st)
   \<and> (fst (reload_plugins n env st) = Returned \<longrightarrow>
      maintenance_mode (snd (reload_plugins n env st)) = maintenance_mode st)
   \<and> (fst (load_plugins k env st) \<noteq> Returned \<longrightarrow>
      maintenance_mode (snd (load_plugins k env st)))
   \<and> (maintenance_mode s \<longrightarrow>
        maintenance_mode (snd (load_attempt env blocked s))
        \<and> maintenance_mode (snd (recover env path msg s)))"
  using load_plugins_restores [of n env st] unload_plugins_restores [of env st]
    reload_plugins_restores [of n env st] load_plugins_on_unless_returned [of k env st]
  by simp

text \<open>The theorem at a load that starts with the flag off, is still running with the
  flag on after one pass, in which it blacklists a plugin, and returns in the second.\<close>

theorem maintenance_mode_restored_witness:
  "fst (load_plugins 2 blockable_env fresh_state) = Returned
   \<and> maintenance_mode (snd (load_plugins 2 blockable_env fresh_state)) = maintenance_mode fresh_state
   \<and> fst (unload_plugins blockable_env fresh_state) = None
   \<and> maintenance_mode (snd (unload_plugins blockable_env fresh_state)) = maintenance_mode fresh_state
   \<and> fst (reload_plugins 2 blockable_env fresh_state) = Returned
   \<and> maintenance_mode (snd (reload_plugins 2 blockable_env fresh_state)) = maintenance_mode fresh_state
   \<and> \<not> maintenance_mode fresh_state
   \<and> fst (load_plugins 1 blockable_env fresh_state) = Exhausted
   \<and> maintenance_mode (snd (load_plugins 1 blockable_env fresh_state))
   \<and> maintenance_mode (snd (load_attempt blockable_env None (fresh_state\<lparr>maintenance_mode := True\<rparr>)))"
proof -
  have l: "fst (load_plugins 2 blockable_env fresh_state) = Returned" by code_simp
  have u: "fst (unload_plugins blockable_env fresh_state) = None" by code_simp
  have r: "fst (reload_plugins 2 blockable_env fresh_state) = Returned" by code_simp
  have running: "fst (load_plugins 1 blockable_env fresh_state) = Exhausted" by code_simp
  have off: "\<not> maintenance_mode fresh_state" by (simp add: fresh_state_def)
  have on: "maintenance_mode (fresh_state\<lparr>maintenance_mode := True\<rparr>)" by simp
  show ?thesis
    using l u r running off on
      maintenance_mode_restored [where n = 2 and env = blockable_env and st = fresh_state
        and k = 1 and s = "fresh_state\<lparr>maintenance_mode := True\<rparr>" and blocked = None]
    by simp
qed

subsection \<open>Loading and unloading again\<close>

lemma count_list_remove1:
  "count_list (remove1 p xs) q = (if p = q then count_list xs q - 1 else count_list xs q)"
  by (induction xs) auto

lemma remove_paths_count:
  "count_list (remove_paths ps apps) q = count_list apps q - count_list ps q"
proof (induction ps arbitrary: apps)
  case Nil
  then show ?case by simp
next
  case (Cons p ps)
  have "count_list (if p \<in> set apps then remove1 p apps else apps) q
          = (if p = q then count_list apps q - 1 else count_list apps q)"
    by (simp add: count_list_remove1 count_list_0_iff)
  then show ?case using Cons.IH [of "if p \<in> set apps then remove1 p apps else apps"]
    by simp
qed

lemma apps_inv_initial: "apps_inv (set (INSTALLED_APPS st)) st"
  by (simp add: apps_inv_def count_list_0_iff)

lemma apps_inv_same:
  "INSTALLED_APPS st' = INSTALLED_APPS st \<Longrightarrow>
   INTEGRATION_APPS_PATHS st' = INTEGRATION_APPS_PATHS st \<Longrightarrow>
   apps_inv B st \<Longrightarrow> apps_inv B st'"
  by (simp add: apps_inv_def)

lemma apps_inv_add_apps: "apps_inv B st \<Longrightarrow> apps_inv B (fst (add_apps env ps st ch))"
proof -
  assume inv: "apps_inv B st"
  obtain new where
    "INSTALLED_APPS (fst (add_apps env ps st ch)) = INSTALLED_APPS st @ new"
    "INTEGRATION_APPS_PATHS (fst (add_apps env ps st ch)) = INTEGRATION_APPS_PATHS st @ new"
    using add_apps_append [of env ps st ch] by blast
  then show ?thesis using inv by (simp add: apps_inv_def)
qed

lemma apps_inv_clean: "apps_inv B st \<Longrightarrow> apps_inv B (clean_installed_apps st)"
  by (simp add: apps_inv_def clean_installed_apps_def remove_paths_count)

lemma apps_inv_cleaned:
  assumes "apps_inv B st" and "p \<notin> B"
  shows "p \<notin> set (INSTALLED_APPS (clean_installed_apps st))"
proof -
  have "count_list (remove_paths (INTEGRATION_APPS_PATHS st) (INSTALLED_APPS st)) p = 0"
    using assms by (simp add: remove_paths_count apps_inv_def)
  then show ?thesis by (simp add: clean_installed_apps_def count_list_0_iff)
qed

lemma apps_inv_activate_plugins:
  "apps_inv B st \<Longrightarrow> apps_inv B (snd (activate_plugins env f st))"
proof -
  assume inv: "apps_inv B st"
  let ?st1 = "activate_integration_globalsettings env (INTEGRATION_PLUGINS st) st"
  have inv1: "apps_inv B ?st1" using inv by (rule apps_inv_same [rotated 2]) simp_all
  let ?added = "fst (add_apps env (INTEGRATION_PLUGINS st) ?st1 False)"
  have inv2: "apps_inv B ?added" using inv1 by (rule apps_inv_add_apps)
  have "INSTALLED_APPS (snd (activate_plugins env f st))
          = (if PLUGIN_TESTING env \<or> ENABLE_PLUGINS_APP env
             then INSTALLED_APPS ?added else INSTALLED_APPS ?st1)"
       "INTEGRATION_APPS_PATHS (snd (activate_plugins env f st))
          = (if PLUGIN_TESTING env \<or> ENABLE_PLUGINS_APP env
             then INTEGRATION_APPS_PATHS ?added else INTEGRATION_APPS_PATHS ?st1)"
    by (simp_all add: activate_plugins_def activate_integration_app_def Let_def)
  then show ?thesis using inv1 inv2 by (auto simp: apps_inv_def)
qed

lemma apps_inv_load_attempt:
  "apps_inv B st \<Longrightarrow> apps_inv B (snd (load_attempt env b st))"
proof -
  assume inv: "apps_inv B st"
  have "apps_inv B (snd (init_plugins env b st))"
    using inv by (rule apps_inv_same [rotated 2]) simp_all
  then show ?thesis using apps_inv_activate_plugins
    by (simp add: load_attempt_def snd_then_do)
qed

lemma apps_inv_recover:
  "apps_inv B st \<Longrightarrow> apps_inv B (snd (recover env p m st))"
proof -
  assume inv: "apps_inv B st"
  have "apps_inv B (clean_registry (log_plugin_error p m ''load'' st))"
    using inv by (rule apps_inv_same [rotated 2]) simp_all
  then show ?thesis unfolding recover_def
    by (intro apps_inv_activate_plugins apps_inv_clean)
qed

lemma apps_inv_load_plugins:
  "apps_inv B st \<Longrightarrow> apps_inv B (snd (load_plugins n env st))"
proof -
  assume inv: "apps_inv B st"
  let ?st1 = "if \<not> maintenance_mode st then st\<lparr>maintenance_mode := True\<rparr> else st"
  have "apps_inv B ?st1" using inv by (simp add: apps_inv_def)
  then have loop: "apps_inv B (snd (load_loop n env None ?st1))"
    by (rule load_loop_invariant [where P = "apps_inv B", rotated 2])
       (simp_all add: apps_inv_load_attempt apps_inv_recover)
  obtain r st2 where l: "load_loop n env None ?st1 = (r, st2)"
    by (cases "load_loop n env None ?st1")
  then have "apps_inv B st2" using loop by simp
  then have "apps_inv B (st2\<lparr>maintenance_mode := False\<rparr>)" by (simp add: apps_inv_def)
  then show ?thesis using l \<open>apps_inv B st2\<close>
    by (cases r) (simp_all add: load_plugins_def Let_def)
qed

lemma deactivate_integration_app_cleans:
  assumes "fst (deactivate_integration_app env st) = None"
  shows "INSTALLED_APPS (snd (deactivate_integration_app env st))
           = INSTALLED_APPS (clean_installed_apps st)"
    and "INTEGRATION_APPS_PATHS (snd (deactivate_integration_app env st)) = []"
proof -
  have ok: "fst (on_host (deactivate_loop (INTEGRATION_APPS_PATHS st)) st) = None"
    using assms by (simp add: deactivate_integration_app_def fst_then_do split: if_splits)
  have cl: "INSTALLED_APPS (clean_installed_apps (st\<lparr>hst := h\<rparr>))
              = INSTALLED_APPS (clean_installed_apps st)" for h
    by (simp add: clean_installed_apps_def)
  show "INSTALLED_APPS (snd (deactivate_integration_app env st))
           = INSTALLED_APPS (clean_installed_apps st)"
    using ok by (simp add: deactivate_integration_app_def snd_then_do snd_on_host cl)
  show "INTEGRATION_APPS_PATHS (snd (deactivate_integration_app env st)) = []"
    using ok by (simp add: deactivate_integration_app_def snd_then_do snd_on_host)
qed

lemma unload_plugins_cleans:
  assumes "fst (unload_plugins env st) = None"
  shows "INSTALLED_APPS (snd (unload_plugins env st)) = INSTALLED_APPS (clean_installed_apps st)"
    and "INTEGRATION_APPS_PATHS (snd (unload_plugins env st)) = []"
    and "INTEGRATION_PLUGINS (snd (unload_plugins env st)) = []"
    and "INTEGRATION_PLUGINS_INACTIVE (snd (unload_plugins env st)) = []"
proof -
  define st1 where
    "st1 = clean_registry (if \<not> maintenance_mode st then st\<lparr>maintenance_mode := True\<rparr> else st)"
  define st2 where "st2 = snd (deactivate_plugins env st1)"
  have d: "fst (deactivate_plugins env st1) = None"
    using assms by (simp add: unload_plugins_def Let_def fst_then_do st1_def split: if_splits)
  then have a: "fst (deactivate_integration_app env st1) = None"
    by (simp add: deactivate_plugins_def fst_then_do split: if_splits)
  have same: "INSTALLED_APPS (clean_installed_apps st1) = INSTALLED_APPS (clean_installed_apps st)"
    by (simp add: clean_installed_apps_def clean_registry_def st1_def)
  have reg: "INTEGRATION_PLUGINS st1 = []" "INTEGRATION_PLUGINS_INACTIVE st1 = []"
    by (simp_all add: st1_def)
  have u: "snd (unload_plugins env st) =
             (if \<not> maintenance_mode st then st2\<lparr>maintenance_mode := False\<rparr> else st2)"
    using d by (simp add: unload_plugins_def Let_def snd_then_do st1_def st2_def)
  have dp: "st2 = snd (deactivate_integration_globalsettings (snd (deactivate_integration_app env st1)))"
    using a by (simp add: deactivate_plugins_def snd_then_do st2_def)
  have f1: "INSTALLED_APPS st2 = INSTALLED_APPS (clean_installed_apps st)"
    using deactivate_integration_app_cleans(1) [OF a] same by (simp add: dp)
  have f2: "INTEGRATION_APPS_PATHS st2 = []"
    using deactivate_integration_app_cleans(2) [OF a] by (simp add: dp)
  have f3: "INTEGRATION_PLUGINS st2 = []" "INTEGRATION_PLUGINS_INACTIVE st2 = []"
    using reg by (simp_all add: st2_def)
  show "INSTALLED_APPS (snd (unload_plugins env st)) = INSTALLED_APPS (clean_installed_apps st)"
    using f1 by (simp add: u)
  show "INTEGRATION_APPS_PATHS (snd (unload_plugins env st)) = []"
    using f2 by (simp add: u)
  show "INTEGRATION_PLUGINS (snd (unload_plugins env st)) = []"
    using f3 by (simp add: u)
  show "INTEGRATION_PLUGINS_INACTIVE (snd (unload_plugins env st)) = []"
    using f3 by (simp add: u)
qed

lemma unload_plugins_registry:
  "INTEGRATION_PLUGINS (snd (unload_plugins env st)) = []"
  "INTEGRATION_PLUGINS_INACTIVE (snd (unload_plugins env st)) = []"
  by (simp_all add: unload_plugins_def Let_def snd_then_do)

text \<open>
  When \<^verbatim>\<open>unload_plugins\<close> returns normally after a load, however the load ended,
  the round trip holds: the registry maps and the tracking list are empty and nothing is
  installed that was not installed before the load.
\<close>

lemma round_trip_when_unload_returns:
  fixes n :: nat and env :: env and st :: state
  defines "s1 \<equiv> snd (load_plugins n env st)"
  defines "s2 \<equiv> snd (unload_plugins env (snd (load_plugins n env st)))"
  assumes u: "fst (unload_plugins env s1) = None"
  shows "INTEGRATION_PLUGINS s2 = [] \<and> INTEGRATION_PLUGINS_INACTIVE s2 = []
       \<and> INTEGRATION_APPS_PATHS s2 = []
       \<and> set (INSTALLED_APPS s2) \<subseteq> set (INSTALLED_APPS st)"
proof -
  have inv: "apps_inv (set (INSTALLED_APPS st)) s1"
    using apps_inv_load_plugins [OF apps_inv_initial, of st n env] by (simp add: s1_def)
  have s2: "s2 = snd (unload_plugins env s1)" by (simp add: s1_def s2_def)
  have gone: "p \<notin> set (INSTALLED_APPS s2)" if "p \<notin> set (INSTALLED_APPS st)" for p
    using apps_inv_cleaned [OF inv that] unload_plugins_cleans(1) [OF u] by (simp add: s2)
  show ?thesis
    using unload_plugins_cleans(2) [OF u] gone by (auto simp: s2 unload_plugins_registry)
qed

text \<open>
  C6 (the code at a failing input). A plugin below \<^verbatim>\<open>BASE_DIR\<close> contributes the app
  \<^verbatim>\<open>plugins.shop\<close> with one model, which the host registers under the app label
  \<^verbatim>\<open>shop\<close>. \<^verbatim>\<open>load_plugins\<close> returns normally and has added the path. In
  \<^verbatim>\<open>unload_plugins\<close> the model is unregistered from the admin site, then
  \<^verbatim>\<open>apps.all_models[plugin_path].pop(model)\<close> looks under the dotted path, finds an
  empty dict and raises KeyError outside the try block. The registry maps are empty, but
  the path is still installed and still tracked, and the maintenance flag is left on.
\<close>

theorem unload_raises_after_normal_load:
  "fst (load_plugins 1 shop_env fresh_state) = Returned
   \<and> ''plugins.shop'' \<notin> set (INSTALLED_APPS fresh_state)
   \<and> ''plugins.shop'' \<in> set (INSTALLED_APPS (snd (load_plugins 1 shop_env fresh_state)))
   \<and> all_models (hst (snd (load_plugins 1 shop_env fresh_state))) = [(''shop'', [''order''])]
   \<and> fst (unload_plugins shop_env (snd (load_plugins 1 shop_env fresh_state)))
       = Some (KeyError ''order'')
   \<and> INTEGRATION_PLUGINS
         (snd (unload_plugins shop_env (snd (load_plugins 1 shop_env fresh_state)))) = []
   \<and> INTEGRATION_PLUGINS_INACTIVE
         (snd (unload_plugins shop_env (snd (load_plugins 1 shop_env fresh_state)))) = []
   \<and> INSTALLED_APPS
         (snd (unload_plugins shop_env (snd (load_plugins 1 shop_env fresh_state))))
       = [''common'', ''plugin'', ''plugins.shop'']
   \<and> INTEGRATION_APPS_PATHS
         (snd (unload_plugins shop_env (snd (load_plugins 1 shop_env fresh_state))))
       = [''plugins.shop'']
   \<and> maintenance_mode
         (snd (unload_plugins shop_env (snd (load_plugins 1 shop_env fresh_state))))"
  by code_simp

subsection \<open>A persistence layer that is not provisioned\<close>

lemma resolve_record_db_error:
  "db_fault env = Some e \<Longrightarrow> is_db_error e \<Longrightarrow>
   resolve_record env k nm db = (if PLUGIN_TESTING env then Inr (None, db) else Inl e)"
  by (simp add: resolve_record_def get_or_create_def)

lemma init_plugin_db_error:
  "db_fault env = Some e \<Longrightarrow> is_db_error e \<Longrightarrow> \<not> PLUGIN_TESTING env \<Longrightarrow>
   init_plugin env blocked c st = (Some e, st)"
  by (simp add: init_plugin_def resolve_record_db_error)

lemma init_plugin_without_record:
  "db_fault env = Some e \<Longrightarrow> is_db_error e \<Longrightarrow> PLUGIN_TESTING env \<Longrightarrow>
   init_plugin env blocked c st =
     (if is_disabled blocked c
      then (None, st\<lparr>INTEGRATION_PLUGINS_INACTIVE :=
                        AList.update (plug_key env c) None (INTEGRATION_PLUGINS_INACTIVE st)\<rparr>)
      else (case init_raises c of
              Some x \<Rightarrow> (Some x, st)
            | None \<Rightarrow> (None, st\<lparr>INTEGRATION_PLUGINS :=
                        AList.update (plug_key env c) (instantiate env c None)
                          (INTEGRATION_PLUGINS st)\<rparr>)))"
  by (simp add: init_plugin_def resolve_record_db_error instantiate_def split: option.split)

lemma load_loop_db_error:
  assumes "db_fault env = Some e" "is_db_error e" "\<not> PLUGIN_TESTING env"
      and "discovered env = c # cs"
  shows "load_loop n env blocked st = (Exhausted, st)"
proof (induction n)
  case 0
  then show ?case by simp
next
  case (Suc n)
  have "load_attempt env blocked st = (Some e, st)"
    using assms by (simp add: load_attempt_def init_plugins_def init_plugin_db_error)
  then show ?case using Suc assms(2) by simp
qed

text \<open>
  C3 as stated fails: with the store not provisioned and the test flag off, the error is
  not propagated to the caller of \<^verbatim>\<open>load_plugins\<close>. The attempt raises it and leaves
  the state as it was, and after three passes the loop is still running in that state.
\<close>

theorem db_error_is_swallowed_counterexample:
  "load_attempt unmigrated_env None (fresh_state\<lparr>maintenance_mode := True\<rparr>)
     = (Some OperationalError, fresh_state\<lparr>maintenance_mode := True\<rparr>)
   \<and> load_plugins 3 unmigrated_env fresh_state
     = (Exhausted, fresh_state\<lparr>maintenance_mode := True\<rparr>)
   \<and> fst (load_plugins 3 unmigrated_env fresh_state) \<noteq> Raised OperationalError"
  by code_simp

text \<open>
  C3 (as amended). If the persistence layer raises its not-yet-provisioned error while
  the plugins are initialised and the test flag is off, \<^verbatim>\<open>_init_plugins\<close> aborts at
  the first plugin and re-raises the error with the state untouched; the error reaches
  \<^verbatim>\<open>load_plugins\<close>, whose except clause catches it, so \<^verbatim>\<open>load_plugins\<close> does
  not raise it to its own caller. Under the test flag the record is None instead and the
  plugin is handled without a record: registered as inactive when it is the blocked one,
  instantiated (without a primary key) otherwise.
\<close>

theorem db_error_aborts_init_and_is_caught:
  assumes "db_fault env = Some e" and "is_db_error e" and "discovered env = c # cs"
  shows "(\<not> PLUGIN_TESTING env \<longrightarrow>
            init_plugins env blocked st = (Some e, st)
          \<and> load_attempt env blocked st = (Some e, st)
          \<and> fst (load_plugins n env st) \<noteq> Raised e)
       \<and> (PLUGIN_TESTING env \<longrightarrow>
            resolve_record env (plug_key env c) (PLUGIN_NAME c) (plugin_db st)
              = Inr (None, plugin_db st)
          \<and> init_plugin env blocked c st =
              (if is_disabled blocked c
               then (None, st\<lparr>INTEGRATION_PLUGINS_INACTIVE :=
                        AList.update (plug_key env c) None (INTEGRATION_PLUGINS_INACTIVE st)\<rparr>)
               else (case init_raises c of
                       Some x \<Rightarrow> (Some x, st)
                     | None \<Rightarrow> (None, st\<lparr>INTEGRATION_PLUGINS :=
                          AList.update (plug_key env c) (instantiate env c None)
                            (INTEGRATION_PLUGINS st)\<rparr>))))"
proof -
  have caught: "fst (load_plugins n env st) \<noteq> Raised e" if "\<not> PLUGIN_TESTING env"
    using load_loop_db_error [OF assms(1,2) that assms(3)]
    by (simp add: load_plugins_def Let_def)
  have aborted: "init_plugins env blocked st = (Some e, st)" if "\<not> PLUGIN_TESTING env"
    using assms that by (simp add: init_plugins_def init_plugin_db_error)
  then have "load_attempt env blocked st = (Some e, st)" if "\<not> PLUGIN_TESTING env"
    using that by (simp add: load_attempt_def)
  then show ?thesis
    using caught aborted resolve_record_db_error [OF assms(1,2)]
      init_plugin_without_record [OF assms(1,2)]
    by simp
qed

text \<open>The theorem with the test flag off and with the test flag on.\<close>

theorem db_error_aborts_init_and_is_caught_witness:
  "init_plugins unmigrated_env None fresh_state = (Some OperationalError, fresh_state)
   \<and> load_attempt unmigrated_env None fresh_state = (Some OperationalError, fresh_state)
   \<and> fst (load_plugins 3 unmigrated_env fresh_state) \<noteq> Raised OperationalError
   \<and> resolve_record unmigrated_test_env (plug_key unmigrated_test_env good_plugin)
        (PLUGIN_NAME good_plugin) (plugin_db fresh_state) = Inr (None, plugin_db fresh_state)
   \<and> fst (init_plugin unmigrated_test_env None good_plugin fresh_state) = None"
proof -
  have off: "db_fault unmigrated_env = Some OperationalError" "\<not> PLUGIN_TESTING unmigrated_env"
      "discovered unmigrated_env = good_plugin # []"
    by (simp_all add: unmigrated_env_def demo_env_def)
  have on: "db_fault unmigrated_test_env = Some OperationalError" "PLUGIN_TESTING unmigrated_test_env"
      "discovered unmigrated_test_env = good_plugin # []"
    by (simp_all add: unmigrated_test_env_def demo_env_def)
  have e: "is_db_error OperationalError" by simp
  have g: "init_raises good_plugin = None" by (simp add: good_plugin_def simple_plugin_def)
  show ?thesis
    using db_error_aborts_init_and_is_caught [OF off(1) e off(3), of None fresh_state 3] off(2)
      db_error_aborts_init_and_is_caught [OF on(1) e on(3), of None fresh_state 3] on(2) g
    by simp
qed

subsection \<open>Two plugins with the same slug\<close>

lemma get_or_create_named:
  "get_or_create env k n db =
     (case db_fault env of
        Some e \<Rightarrow> Inl e
      | None \<Rightarrow>
          (case filter (named k n) db of
             [] \<Rightarrow>
               if key_unique env \<and> k \<in> cfg_key ` set db then Inl IntegrityError
               else Inr (\<lparr>cfg_pk = length db, cfg_key = k, cfg_name = n,
                                cfg_active = new_record_active env\<rparr>,
                         db @ [\<lparr>cfg_pk = length db, cfg_key = k, cfg_name = n,
                                cfg_active = new_record_active env\<rparr>])
           | [r] \<Rightarrow> Inr (r, db)
           | r # r' # rs \<Rightarrow> Inl MultipleObjectsReturned))"
proof -
  have "filter (\<lambda>r. cfg_key r = k \<and> cfg_name r = n) db = filter (named k n) db"
    by (simp add: named_def [abs_def])
  then show ?thesis
    unfolding get_or_create_def Let_def by (cases "db_fault env") simp_all
qed

lemma get_or_create_result:
  assumes "db_fault env = None" and "get_or_create env k n db = Inr (r, db')"
  shows "filter (named k n) db' = [r]"
    and "set db \<subseteq> set db'"
    and "filter (named k0 n0) db \<noteq> [] \<Longrightarrow> filter (named k0 n0) db' = filter (named k0 n0) db"
    and "key_unique env \<Longrightarrow> distinct (map cfg_key db) \<Longrightarrow> distinct (map cfg_key db')"
proof -
  consider (created) "filter (named k n) db = []" "\<not> (key_unique env \<and> k \<in> cfg_key ` set db)"
      "r = \<lparr>cfg_pk = length db, cfg_key = k, cfg_name = n, cfg_active = new_record_active env\<rparr>"
      "db' = db @ [r]"
    | (found) "filter (named k n) db = [r]" "db' = db"
    using assms
    by (auto simp: get_or_create_named split: list.splits if_splits)
  note shape = this
  show "filter (named k n) db' = [r]"
    by (cases rule: shape) (simp_all add: named_def)
  show "set db \<subseteq> set db'"
    by (cases rule: shape) auto
  show "filter (named k0 n0) db' = filter (named k0 n0) db" if "filter (named k0 n0) db \<noteq> []"
  proof (cases rule: shape)
    case created
    have "\<not> named k0 n0 r"
    proof
      assume "named k0 n0 r"
      then have "k0 = k" "n0 = n" using created(3) by (simp_all add: named_def)
      then show False using that created(1) by simp
    qed
    then show ?thesis using created(4) by simp
  next
    case found
    then show ?thesis by simp
  qed
  show "distinct (map cfg_key db')" if "key_unique env" "distinct (map cfg_key db)"
    by (cases rule: shape) (use that in \<open>auto\<close>)
qed

lemma get_or_create_error:
  assumes "db_fault env = None" and "get_or_create env k n db = Inl e"
  shows "e = IntegrityError \<or> e = MultipleObjectsReturned"
  using assms by (auto simp: get_or_create_named split: list.splits if_splits)

lemma init_plugin_refused:
  assumes "get_or_create env (plug_key env c) (PLUGIN_NAME c) (plugin_db st) = Inl e"
      and "\<not> is_db_error e"
  shows "init_plugin env d c st = (Some e, st)"
  using assms by (simp add: init_plugin_def resolve_record_def Let_def)

lemma init_plugin_resolved:
  assumes "get_or_create env (plug_key env c) (PLUGIN_NAME c) (plugin_db st) = Inr (r, db')"
  shows "init_plugin env None c st =
     (if PLUGIN_TESTING env \<or> cfg_active r
      then (case init_raises c of
              Some e \<Rightarrow> (Some e, st\<lparr>plugin_db := db'\<rparr>)
            | None \<Rightarrow> (None, st\<lparr>plugin_db := db',
                 INTEGRATION_PLUGINS :=
                   AList.update (plug_key env c) (instantiate env c (Some r))
                     (INTEGRATION_PLUGINS st)\<rparr>))
      else (None, st\<lparr>plugin_db := db',
                 INTEGRATION_PLUGINS_INACTIVE :=
                   AList.update (plug_key env c) (Some r) (INTEGRATION_PLUGINS_INACTIVE st)\<rparr>))"
  using assms
  by (simp add: init_plugin_def resolve_record_def instantiate_def Let_def split: option.split)

lemma init_plugin_resolved_db:
  assumes "get_or_create env (plug_key env c) (PLUGIN_NAME c) (plugin_db st) = Inr (r, db')"
  shows "plugin_db (snd (init_plugin env None c st)) = db'"
  by (simp add: init_plugin_resolved [OF assms] split: option.split)

lemma init_plugin_store:
  assumes "db_fault env = None"
  shows "filter (named k0 n0) (plugin_db st) \<noteq> [] \<Longrightarrow>
           filter (named k0 n0) (plugin_db (snd (init_plugin env None c st)))
             = filter (named k0 n0) (plugin_db st)"
    and "key_unique env \<Longrightarrow> distinct (map cfg_key (plugin_db st)) \<Longrightarrow>
           distinct (map cfg_key (plugin_db (snd (init_plugin env None c st))))"
    and "fst (init_plugin env None c st) = None \<Longrightarrow>
           length (filter (named (plug_key env c) (PLUGIN_NAME c))
             (plugin_db (snd (init_plugin env None c st)))) = 1"
proof -
  consider (refused) e where
      "get_or_create env (plug_key env c) (PLUGIN_NAME c) (plugin_db st) = Inl e"
      "init_plugin env None c st = (Some e, st)"
    | (resolved) r db' where
      "get_or_create env (plug_key env c) (PLUGIN_NAME c) (plugin_db st) = Inr (r, db')"
      "plugin_db (snd (init_plugin env None c st)) = db'"
  proof (cases "get_or_create env (plug_key env c) (PLUGIN_NAME c) (plugin_db st)")
    case (Inl e)
    then have "\<not> is_db_error e" using get_or_create_error [OF assms Inl] by auto
    then show ?thesis using Inl init_plugin_refused that(1) by blast
  next
    case (Inr p)
    then obtain r db' where
      "get_or_create env (plug_key env c) (PLUGIN_NAME c) (plugin_db st) = Inr (r, db')"
      by (cases p) simp
    then show ?thesis using init_plugin_resolved_db that(2) by blast
  qed
  note shape = this
  show "filter (named k0 n0) (plugin_db (snd (init_plugin env None c st)))
             = filter (named k0 n0) (plugin_db st)"
    if "filter (named k0 n0) (plugin_db st) \<noteq> []"
  proof (cases rule: shape)
    case refused
    then show ?thesis by simp
  next
    case resolved
    then show ?thesis using get_or_create_result(3) [OF assms resolved(1) that] by simp
  qed
  show "distinct (map cfg_key (plugin_db (snd (init_plugin env None c st))))"
    if "key_unique env" "distinct (map cfg_key (plugin_db st))"
  proof (cases rule: shape)
    case refused
    then show ?thesis using that by simp
  next
    case resolved
    then show ?thesis using get_or_create_result(4) [OF assms resolved(1) that] by simp
  qed
  show "length (filter (named (plug_key env c) (PLUGIN_NAME c))
             (plugin_db (snd (init_plugin env None c st)))) = 1"
    if "fst (init_plugin env None c st) = None"
  proof (cases rule: shape)
    case refused
    then show ?thesis using that by simp
  next
    case resolved
    then show ?thesis using get_or_create_result(1) [OF assms resolved(1)] by simp
  qed
qed

lemma init_loop_store:
  assumes "db_fault env = None"
  shows "filter (named k0 n0) (plugin_db st) \<noteq> [] \<Longrightarrow>
           filter (named k0 n0) (plugin_db (snd (init_loop env None cs st)))
             = filter (named k0 n0) (plugin_db st)"
    and "key_unique env \<Longrightarrow> distinct (map cfg_key (plugin_db st)) \<Longrightarrow>
           distinct (map cfg_key (plugin_db (snd (init_loop env None cs st))))"
proof -
  show "filter (named k0 n0) (plugin_db (snd (init_loop env None cs st)))
             = filter (named k0 n0) (plugin_db st)"
    if "filter (named k0 n0) (plugin_db st) \<noteq> []"
    using that
    by (induction cs arbitrary: st) (simp_all add: snd_then_do init_plugin_store(1) [OF assms])
  show "distinct (map cfg_key (plugin_db (snd (init_loop env None cs st))))"
    if "key_unique env" "distinct (map cfg_key (plugin_db st))"
    using that
    by (induction cs arbitrary: st) (simp_all add: snd_then_do init_plugin_store(2) [OF assms])
qed

lemma init_loop_head_record:
  assumes "db_fault env = None" and "fst (init_loop env None (c # cs) st) = None"
  shows "length (filter (named (plug_key env c) (PLUGIN_NAME c))
             (plugin_db (snd (init_loop env None (c # cs) st)))) = 1"
proof -
  have first: "fst (init_plugin env None c st) = None"
    using assms(2) by (simp add: fst_then_do split: if_splits)
  have one: "length (filter (named (plug_key env c) (PLUGIN_NAME c))
             (plugin_db (snd (init_plugin env None c st)))) = 1"
    using init_plugin_store(3) [OF assms(1) first] .
  then have "filter (named (plug_key env c) (PLUGIN_NAME c))
             (plugin_db (snd (init_plugin env None c st))) \<noteq> []"
    by auto
  then show ?thesis
    using one first by (simp add: snd_then_do init_loop_store(1) [OF assms(1)])
qed

lemma distinct_key_single:
  "distinct (map cfg_key db) \<Longrightarrow> r \<in> set db \<Longrightarrow> filter (\<lambda>x. cfg_key x = cfg_key r) db = [r]"
proof (induction db)
  case Nil
  then show ?case by simp
next
  case (Cons a db)
  show ?case
  proof (cases "a = r")
    case True
    have "cfg_key r \<notin> cfg_key ` set db"
      using Cons.prems(1) True by simp
    then have "\<forall>x\<in>set db. cfg_key x \<noteq> cfg_key r"
      by (metis imageI)
    then have "filter (\<lambda>x. cfg_key x = cfg_key r) db = []"
      by (simp add: filter_empty_conv)
    then show ?thesis using True by simp
  next
    case False
    then have "r \<in> set db" using Cons.prems(2) by simp
    then have "cfg_key a \<noteq> cfg_key r" using Cons.prems(1) by auto
    then show ?thesis using Cons.IH Cons.prems(1) \<open>r \<in> set db\<close> by simp
  qed
qed

lemma then_do_assoc:
  "then_do (then_do r f) g = then_do r (\<lambda>s. then_do (f s) g)"
  by (cases r) (auto simp: then_do_def split: option.split)

lemma init_loop_append:
  "init_loop env d (xs @ ys) st = then_do (init_loop env d xs st) (init_loop env d ys)"
proof (induction xs arbitrary: st)
  case Nil
  then show ?case by simp
next
  case (Cons a xs)
  have "init_loop env d (xs @ ys) = (\<lambda>s. then_do (init_loop env d xs s) (init_loop env d ys))"
    using Cons.IH by (intro ext)
  then show ?case by (simp add: then_do_assoc)
qed

lemma init_loop_after:
  assumes "fst (init_loop env d xs st) = None"
  shows "init_loop env d (xs @ ys) st = init_loop env d ys (snd (init_loop env d xs st))"
proof -
  have "init_loop env d xs st = (None, snd (init_loop env d xs st))"
    using assms by (cases "init_loop env d xs st") simp
  then show ?thesis
    using init_loop_append [of env d xs ys st] by (metis then_do_simps(1))
qed

lemma init_plugin_maintenance:
  "init_plugin env d c (st\<lparr>maintenance_mode := b\<rparr>) =
     (fst (init_plugin env d c st), (snd (init_plugin env d c st))\<lparr>maintenance_mode := b\<rparr>)"
  by (simp add: init_plugin_def log_plugin_error_def Let_def
      split: sum.split prod.split option.split)

lemma init_loop_maintenance:
  "init_loop env d cs (st\<lparr>maintenance_mode := b\<rparr>) =
     (fst (init_loop env d cs st), (snd (init_loop env d cs st))\<lparr>maintenance_mode := b\<rparr>)"
proof (induction cs arbitrary: st)
  case Nil
  then show ?case by simp
next
  case (Cons c cs)
  show ?case
  proof (cases "init_plugin env d c st")
    case (Pair r s)
    then show ?thesis
      using Cons.IH [of s] by (cases r) (simp_all add: init_plugin_maintenance)
  qed
qed

lemma names_apart:
  "n1 \<noteq> n2 \<Longrightarrow>
   length (filter (named k n1) db) + length (filter (named k n2) db) \<le> records_for k db"
  by (induction db) (auto simp: named_def records_for_def)

lemma load_plugins_init_raises:
  assumes "init_loop env None (discovered env) st = (Some e, s)"
      and "\<not> is_db_error e" and "\<forall>path msg. e \<noteq> PluginLoadingError path msg"
  shows "load_plugins (Suc n) env st = (Raised e, s\<lparr>maintenance_mode := True\<rparr>)"
proof -
  define st1 where "st1 = (if \<not> maintenance_mode st then st\<lparr>maintenance_mode := True\<rparr> else st)"
  have "st\<lparr>maintenance_mode := maintenance_mode st\<rparr> = st" by simp
  then have "st1 = st\<lparr>maintenance_mode := True\<rparr>"
    unfolding st1_def by (cases "maintenance_mode st") simp_all
  then have "init_loop env None (discovered env) st1 = (Some e, s\<lparr>maintenance_mode := True\<rparr>)"
    using assms(1) by (simp add: init_loop_maintenance)
  then have "load_attempt env None st1 = (Some e, s\<lparr>maintenance_mode := True\<rparr>)"
    by (simp add: load_attempt_def init_plugins_def)
  then have "load_loop (Suc n) env None st1 = (Raised e, s\<lparr>maintenance_mode := True\<rparr>)"
    using assms(2,3) by (cases e) simp_all
  then show ?thesis
    unfolding load_plugins_def Let_def st1_def [symmetric] by simp
qed

text \<open>
  C4 as stated fails: two plugin classes that both carry the name \<^verbatim>\<open>Foo Bar\<close> share the
  key \<^verbatim>\<open>foo-bar\<close>; \<^verbatim>\<open>get_or_create(key=..., name=...)\<close> finds for the second
  class the record made for the first, loading returns normally with nothing in the error
  log, and the registry holds the second class only: the first one has been overwritten
  without a word.
\<close>

theorem shared_name_counterexample:
  "plug_key same_name_env foo_bar_one = ''foo-bar''
   \<and> plug_key same_name_env foo_bar_again = ''foo-bar''
   \<and> discovered same_name_env = [foo_bar_one, foo_bar_again]
   \<and> fst (load_plugins 1 same_name_env fresh_state) = Returned
   \<and> plugin_errors (snd (load_plugins 1 same_name_env fresh_state)) = []
   \<and> map cfg_name (plugin_db (snd (load_plugins 1 same_name_env fresh_state))) = [''Foo Bar'']
   \<and> map (class_name \<circ> plugin_cls \<circ> snd)
         (INTEGRATION_PLUGINS (snd (load_plugins 1 same_name_env fresh_state))) = [''FooBarAgain'']
   \<and> INTEGRATION_PLUGINS_INACTIVE (snd (load_plugins 1 same_name_env fresh_state)) = []"
  by code_simp

text \<open>
  C4 (as amended). Take two discovered plugins \<open>c1\<close>, \<open>c2\<close> whose names slugify to the
  same key \<open>k\<close>, on a store that answers, with \<open>c1\<close> and the plugins between them
  initialised without an exception. What happens at \<open>c2\<close> depends on the names, because
  \<^verbatim>\<open>get_or_create\<close> looks the record up by key and name together:

  \<^item> the names differ (\<^verbatim>\<open>Foo Bar\<close> and \<^verbatim>\<open>foo-bar\<close>) and the record table declares the key
    unique and holds distinct keys: no record matches, the insert violates the constraint,
    and the \<^verbatim>\<open>IntegrityError\<close> leaves \<^verbatim>\<open>_init_plugins\<close> at \<open>c2\<close> with nothing of
    \<open>c2\<close> written; exactly one record exists for the key; \<^verbatim>\<open>load_plugins\<close>, which
    catches only \<^verbatim>\<open>OperationalError\<close>, \<^verbatim>\<open>ProgrammingError\<close> and
    \<^verbatim>\<open>PluginLoadingError\<close>, raises it to its caller in the first pass and leaves maintenance
    mode on;
  \<^item> the names differ and the table does not declare the key unique: after \<open>c2\<close> the
    store holds at least two records for the key;
  \<^item> the names are equal and the constructor of \<open>c2\<close> does not raise: the one record
    with that key and name is shared, no exception is raised and nothing is logged or
    written at \<open>c2\<close>, and when the record is active (or the test flag is set) the entry
    of \<^verbatim>\<open>INTEGRATION_PLUGINS\<close> under \<open>k\<close> is the instance of \<open>c2\<close>, which has replaced
    the one of \<open>c1\<close>.
\<close>

theorem slug_collision_outcome:
  assumes same: "plug_key env c1 = k" "plug_key env c2 = k"
      and db: "db_fault env = None"
      and reached: "fst (init_loop env None (c1 # between) st) = None"
  shows "(PLUGIN_NAME c1 \<noteq> PLUGIN_NAME c2 \<and> key_unique env
            \<and> distinct (map cfg_key (plugin_db st)) \<longrightarrow>
          init_loop env None (c1 # between @ c2 # rest) st
            = (Some IntegrityError, snd (init_loop env None (c1 # between) st))
          \<and> records_for k (plugin_db (snd (init_loop env None (c1 # between) st))) = 1
          \<and> (discovered env = c1 # between @ c2 # rest \<longrightarrow>
               load_plugins (Suc n) env st
                 = (Raised IntegrityError,
                    (snd (init_loop env None (c1 # between) st))\<lparr>maintenance_mode := True\<rparr>)))
       \<and> (PLUGIN_NAME c1 \<noteq> PLUGIN_NAME c2 \<and> \<not> key_unique env \<longrightarrow>
          2 \<le> records_for k (plugin_db (snd (init_loop env None (c1 # between @ [c2]) st))))
       \<and> (PLUGIN_NAME c1 = PLUGIN_NAME c2 \<and> init_raises c2 = None \<longrightarrow>
          fst (init_loop env None (c1 # between @ [c2]) st) = None
          \<and> plugin_errors (snd (init_loop env None (c1 # between @ [c2]) st))
              = plugin_errors (snd (init_loop env None (c1 # between) st))
          \<and> plugin_db (snd (init_loop env None (c1 # between @ [c2]) st))
              = plugin_db (snd (init_loop env None (c1 # between) st))
          \<and> length (filter (named k (PLUGIN_NAME c1))
              (plugin_db (snd (init_loop env None (c1 # between) st)))) = 1
          \<and> (PLUGIN_TESTING env
               \<or> list_all cfg_active (filter (named k (PLUGIN_NAME c1))
                    (plugin_db (snd (init_loop env None (c1 # between) st)))) \<longrightarrow>
             map_option plugin_cls
               (map_of (INTEGRATION_PLUGINS (snd (init_loop env None (c1 # between @ [c2]) st))) k)
               = Some c2))"
proof -
  define s2 where "s2 = snd (init_loop env None (c1 # between) st)"
  define n1 where "n1 = PLUGIN_NAME c1"
  define n2 where "n2 = PLUGIN_NAME c2"
  have one: "length (filter (named k n1) (plugin_db s2)) = 1"
    using init_loop_head_record [OF db reached] by (simp add: same(1) s2_def n1_def)
  then obtain r1 where r1: "filter (named k n1) (plugin_db s2) = [r1]"
    by (cases "filter (named k n1) (plugin_db s2)") auto
  then have "r1 \<in> set (filter (named k n1) (plugin_db s2))" by simp
  then have r1_in: "r1 \<in> set (plugin_db s2)" and r1_key: "cfg_key r1 = k"
    and r1_name: "cfg_name r1 = n1"
    by (simp_all add: named_def)
  have after: "init_loop env None (c1 # between @ cs) st = init_loop env None cs s2" for cs
    using init_loop_after [OF reached, of cs] by (simp add: s2_def)
  have last: "init_loop env None (c1 # between @ [c2]) st = init_plugin env None c2 s2"
    unfolding after [of "[c2]"]
    by (cases "init_plugin env None c2 s2") (simp add: then_do_def split: option.split)

  have part_a:
    "init_loop env None (c1 # between @ c2 # rest) st = (Some IntegrityError, s2)
     \<and> records_for k (plugin_db s2) = 1
     \<and> (discovered env = c1 # between @ c2 # rest \<longrightarrow>
          load_plugins (Suc n) env st
            = (Raised IntegrityError, s2\<lparr>maintenance_mode := True\<rparr>))"
    if differ: "n1 \<noteq> n2" and unique: "key_unique env"
      and store: "distinct (map cfg_key (plugin_db st))"
  proof -
    have keys: "distinct (map cfg_key (plugin_db s2))"
      unfolding s2_def using init_loop_store(2) [OF db unique store] .
    have single: "filter (\<lambda>x. cfg_key x = k) (plugin_db s2) = [r1]"
      using distinct_key_single [OF keys r1_in] by (simp add: r1_key)
    have "\<not> named k n2 x" if "x \<in> set (plugin_db s2)" for x
    proof
      assume "named k n2 x"
      then have "x \<in> set (filter (\<lambda>x. cfg_key x = k) (plugin_db s2))"
        using that by (simp add: named_def)
      then have "x = r1" unfolding single by simp
      then show False using \<open>named k n2 x\<close> r1_name differ by (simp add: named_def)
    qed
    then have none: "filter (named k n2) (plugin_db s2) = []"
      by (simp add: filter_empty_conv)
    have "k \<in> cfg_key ` set (plugin_db s2)"
      using r1_in r1_key by force
    then have "get_or_create env k n2 (plugin_db s2) = Inl IntegrityError"
      using none unique db by (simp add: get_or_create_named)
    then have "init_plugin env None c2 s2 = (Some IntegrityError, s2)"
      using init_plugin_refused [of env c2 s2 IntegrityError None]
      by (simp add: same(2) n2_def)
    then have raised: "init_loop env None (c1 # between @ c2 # rest) st
        = (Some IntegrityError, s2)"
      unfolding after [of "c2 # rest"] by simp
    then have "load_plugins (Suc n) env st
            = (Raised IntegrityError, s2\<lparr>maintenance_mode := True\<rparr>)"
      if "discovered env = c1 # between @ c2 # rest"
      using load_plugins_init_raises [of env st IntegrityError s2 n] that by simp
    then show ?thesis
      using raised single by (simp add: records_for_def)
  qed

  have part_c: "2 \<le> records_for k (plugin_db (snd (init_plugin env None c2 s2)))"
    if differ: "n1 \<noteq> n2" and loose: "\<not> key_unique env"
  proof -
    define s3 where "s3 = snd (init_plugin env None c2 s2)"
    have "filter (named k n1) (plugin_db s2) \<noteq> []" using r1 by simp
    then have first: "length (filter (named k n1) (plugin_db s3)) = 1"
      using init_plugin_store(1) [OF db, of k n1 s2 c2] r1 by (simp add: s3_def)
    have second: "1 \<le> length (filter (named k n2) (plugin_db s3))"
    proof (cases "get_or_create env k n2 (plugin_db s2)")
      case (Inl e)
      then have "e = MultipleObjectsReturned"
        using loose db by (auto simp: get_or_create_named split: list.splits)
      then have "init_plugin env None c2 s2 = (Some e, s2)"
        using init_plugin_refused [of env c2 s2 e None] Inl by (simp add: same(2) n2_def)
      moreover have "filter (named k n2) (plugin_db s2) \<noteq> []"
        using Inl loose db by (auto simp: get_or_create_named split: list.splits)
      ultimately show ?thesis
        by (cases "filter (named k n2) (plugin_db s2)") (simp_all add: s3_def)
    next
      case (Inr p)
      then obtain r db' where got: "get_or_create env k n2 (plugin_db s2) = Inr (r, db')"
        by (cases p) simp
      then have "plugin_db s3 = db'"
        using init_plugin_resolved_db [of env c2 s2 r db'] by (simp add: same(2) n2_def s3_def)
      then show ?thesis using get_or_create_result(1) [OF db got] by simp
    qed
    show ?thesis
      using names_apart [OF differ, of k "plugin_db s3"] first second by (simp add: s3_def)
  qed

  have part_b:
    "fst (init_plugin env None c2 s2) = None
     \<and> plugin_errors (snd (init_plugin env None c2 s2)) = plugin_errors s2
     \<and> plugin_db (snd (init_plugin env None c2 s2)) = plugin_db s2
     \<and> (PLUGIN_TESTING env \<or> list_all cfg_active (filter (named k n1) (plugin_db s2)) \<longrightarrow>
          map_option plugin_cls (map_of (INTEGRATION_PLUGINS (snd (init_plugin env None c2 s2))) k)
            = Some c2)"
    if alike: "n1 = n2" and constructible: "init_raises c2 = None"
  proof -
    have "get_or_create env k n2 (plugin_db s2) = Inr (r1, plugin_db s2)"
      using r1 db alike by (simp add: get_or_create_named)
    then have "get_or_create env (plug_key env c2) (PLUGIN_NAME c2) (plugin_db s2)
        = Inr (r1, plugin_db s2)"
      by (simp add: same(2) n2_def)
    then show ?thesis
      using constructible r1
      by (simp add: init_plugin_resolved same(2) instantiate_def AList.update_conv')
  qed
  show ?thesis
    using part_a part_b part_c one
    unfolding last s2_def [symmetric] n1_def [symmetric] n2_def [symmetric]
    by blast
qed

text \<open>The theorem at the plugins \<^verbatim>\<open>Foo Bar\<close> and \<^verbatim>\<open>foo-bar\<close>, with and without the
  unique key, and at the two classes named \<^verbatim>\<open>Foo Bar\<close>.\<close>

theorem slug_collision_outcome_witness:
  "plug_key collision_env foo_bar_one = ''foo-bar''
   \<and> plug_key collision_env foo_bar_two = ''foo-bar''
   \<and> PLUGIN_NAME foo_bar_one \<noteq> PLUGIN_NAME foo_bar_two
   \<and> key_unique collision_env
   \<and> fst (init_loop collision_env None [foo_bar_one] fresh_state) = None
   \<and> init_loop collision_env None [foo_bar_one, foo_bar_two] fresh_state
       = (Some IntegrityError, snd (init_loop collision_env None [foo_bar_one] fresh_state))
   \<and> records_for ''foo-bar''
        (plugin_db (snd (init_loop collision_env None [foo_bar_one] fresh_state))) = 1
   \<and> load_plugins 1 collision_env fresh_state
       = (Raised IntegrityError,
          (snd (init_loop collision_env None [foo_bar_one] fresh_state))
            \<lparr>maintenance_mode := True\<rparr>)
   \<and> \<not> key_unique unconstrained_env
   \<and> 2 \<le> records_for ''foo-bar''
        (plugin_db (snd (init_loop unconstrained_env None [foo_bar_one, foo_bar_two] fresh_state)))
   \<and> PLUGIN_NAME foo_bar_one = PLUGIN_NAME foo_bar_again
   \<and> PLUGIN_TESTING same_name_env
   \<and> fst (init_loop same_name_env None [foo_bar_one, foo_bar_again] fresh_state) = None
   \<and> plugin_errors (snd (init_loop same_name_env None [foo_bar_one, foo_bar_again] fresh_state))
       = plugin_errors (snd (init_loop same_name_env None [foo_bar_one] fresh_state))
   \<and> map_option plugin_cls
        (map_of (INTEGRATION_PLUGINS
           (snd (init_loop same_name_env None [foo_bar_one, foo_bar_again] fresh_state)))
           ''foo-bar'')
       = Some foo_bar_again"
proof -
  have k1: "plug_key collision_env foo_bar_one = ''foo-bar''" by code_simp
  have k2: "plug_key collision_env foo_bar_two = ''foo-bar''" by code_simp
  have l1: "plug_key unconstrained_env foo_bar_one = ''foo-bar''" by code_simp
  have l2: "plug_key unconstrained_env foo_bar_two = ''foo-bar''" by code_simp
  have m1: "plug_key same_name_env foo_bar_one = ''foo-bar''" by code_simp
  have m2: "plug_key same_name_env foo_bar_again = ''foo-bar''" by code_simp
  have db: "db_fault collision_env = None" "db_fault unconstrained_env = None"
      "db_fault same_name_env = None"
    by (simp_all add: collision_env_def unconstrained_env_def same_name_env_def demo_env_def)
  have r1: "fst (init_loop collision_env None (foo_bar_one # []) fresh_state) = None"
    by code_simp
  have r2: "fst (init_loop unconstrained_env None (foo_bar_one # []) fresh_state) = None"
    by code_simp
  have r3: "fst (init_loop same_name_env None (foo_bar_one # []) fresh_state) = None"
    by code_simp
  have names: "PLUGIN_NAME foo_bar_one \<noteq> PLUGIN_NAME foo_bar_two"
      "PLUGIN_NAME foo_bar_one = PLUGIN_NAME foo_bar_again"
      "init_raises foo_bar_again = None"
    by (simp_all add: foo_bar_one_def foo_bar_two_def foo_bar_again_def simple_plugin_def)
  have envs: "key_unique collision_env" "\<not> key_unique unconstrained_env"
      "PLUGIN_TESTING same_name_env"
      "discovered collision_env = foo_bar_one # [] @ foo_bar_two # []"
    by (simp_all add: collision_env_def unconstrained_env_def same_name_env_def demo_env_def)
  have store: "distinct (map cfg_key (plugin_db fresh_state))"
    by (simp add: fresh_state_def)
  show ?thesis
    using slug_collision_outcome [OF k1 k2 db(1) r1, of "[]" 0]
      slug_collision_outcome [OF l1 l2 db(2) r2, of "[]" 0]
      slug_collision_outcome [OF m1 m2 db(3) r3, of "[]" 0]
      k1 k2 r1 names envs store
    by simp
qed

subsection \<open>A constructor that raises\<close>

lemmas bad_unfold =
  load_plugins_def load_attempt_def init_plugins_def init_plugin_def resolve_record_def
  get_or_create_def instantiate_def 
  faulty_init_env_def demo_env_def good_plugin_def bad_plugin_def simple_plugin_def
  fresh_state_def empty_host_def Let_def

lemma good_key: "plug_key faulty_init_env good_plugin = ''good''" by code_simp

lemma bad_key: "plug_key faulty_init_env bad_plugin = ''bad''" by code_simp

text \<open>
  C1 (the code at a failing input). Two plugins are discovered under the test flag and
  the constructor of the second raises an exception that is neither a database error nor
  a PluginLoadingError. Nothing in \<^verbatim>\<open>_init_plugins\<close> catches it and
  \<^verbatim>\<open>load_plugins\<close> has no except clause for it, so \<^verbatim>\<open>load_plugins\<close> raises
  it in its first pass: the faulting plugin is not in the inactive set, and the maintenance flag, off
  before the call, is left on.
\<close>

theorem constructor_fault_escapes_load_plugins:
  "fst (load_plugins (Suc n) faulty_init_env fresh_state) = Raised (OtherException ''boom'')
   \<and> map fst (INTEGRATION_PLUGINS (snd (load_plugins (Suc n) faulty_init_env fresh_state))) = [''good'']
   \<and> INTEGRATION_PLUGINS_INACTIVE (snd (load_plugins (Suc n) faulty_init_env fresh_state)) = []
   \<and> maintenance_mode (snd (load_plugins (Suc n) faulty_init_env fresh_state))
   \<and> \<not> maintenance_mode fresh_state"
  using good_key bad_key by (simp add: bad_unfold)

subsection \<open>A blacklist that matches no plugin\<close>

lemma foo_key: "plug_key foo_env foo_plugin = ''foo''"
  by code_simp

lemmas foo_unfold =
  load_attempt_def init_plugins_def init_plugin_def resolve_record_def get_or_create_def
  instantiate_def activate_plugins_def activate_integration_globalsettings_def
  activate_integration_app_def get_plugin_path_def reload_after_change_def reload_apps_def
  on_host_def try_reload_def reset_registry_def reregister_contrib_apps_def update_urls_def
  recover_def log_plugin_error_def clean_registry_def clean_installed_apps_def
  foo_env_def demo_env_def foo_plugin_def simple_plugin_def failing_swap_def demo_populate_def
  foo_fault_def site_packages_def base_dir_def stuck_state_def fresh_state_def empty_host_def
  last_component_def bare_app_def Let_def

lemma foo_first_pass:
  "load_loop (Suc n) foo_env None (fresh_state\<lparr>maintenance_mode := True\<rparr>)
     = load_loop n foo_env (Some ''inventree_foo'')
         (stuck_state [(''load'', ''inventree_foo'', ''No module named foo_dep'')])"
  using foo_key by (simp add: foo_unfold)

lemma foo_next_pass:
  "load_loop (Suc n) foo_env (Some ''inventree_foo'') (stuck_state errs)
     = load_loop n foo_env (Some ''inventree_foo'')
         (stuck_state (errs @ [(''load'', ''inventree_foo'', ''No module named foo_dep'')]))"
  using foo_key by (simp add: foo_unfold)

lemma foo_stuck:
  "fst (load_loop n foo_env (Some ''inventree_foo'') (stuck_state errs)) = Exhausted"
  by (induction n arbitrary: errs) (simp_all add: foo_next_pass del: load_loop.simps(2))

text \<open>
  C2 (the code at a failing input). One plugin class \<^verbatim>\<open>FooPlugin\<close> of the
  distribution \<^verbatim>\<open>inventree_foo\<close> is discovered and its app module fails to import.
  \<^verbatim>\<open>_try_reload\<close> names the error after the distribution, \<^verbatim>\<open>_init_plugins\<close>
  compares that name with the class name, so nothing is excluded and every pass fails the
  same way: for no number of passes does \<^verbatim>\<open>load_plugins\<close> return.
\<close>

theorem name_mismatch_never_blacklists:
  "fst (load_plugins n foo_env fresh_state) = Exhausted
   \<and> class_name foo_plugin = ''FooPlugin''
   \<and> fst (try_reload foo_env (set_installed_apps foo_env) [''common'', ''plugin'', ''Foo''] empty_host)
       = Some (PluginLoadingError ''inventree_foo'' ''No module named foo_dep'')"
proof -
  have "fst (load_loop n foo_env None (fresh_state\<lparr>maintenance_mode := True\<rparr>)) = Exhausted"
    by (cases n) (simp_all add: foo_first_pass foo_stuck del: load_loop.simps(2))
  moreover have "\<not> maintenance_mode fresh_state" by (simp add: fresh_state_def)
  ultimately have "fst (load_plugins n foo_env fresh_state) = Exhausted"
    by (cases "load_loop n foo_env None (fresh_state\<lparr>maintenance_mode := True\<rparr>)")
       (simp add: load_plugins_def Let_def)
  moreover have "class_name foo_plugin = ''FooPlugin''"
    by (simp add: foo_plugin_def simple_plugin_def)
  moreover have "fst (try_reload foo_env (set_installed_apps foo_env)
                        [''common'', ''plugin'', ''Foo''] empty_host)
       = Some (PluginLoadingError ''inventree_foo'' ''No module named foo_dep'')"
    by code_simp
  ultimately show ?thesis by simp
qed

subsection \<open>A traceback outside the installed packages\<close>

lemmas local_unfold =
  load_plugins_def load_attempt_def init_plugins_def init_plugin_def resolve_record_def
  get_or_create_def instantiate_def activate_plugins_def activate_integration_globalsettings_def
  activate_integration_app_def get_plugin_path_def reload_after_change_def reload_apps_def
  on_host_def try_reload_def reset_registry_def
  local_env_def demo_env_def local_plugin_def simple_plugin_def failing_swap_def demo_populate_def
  local_fault_def site_packages_def base_dir_def fresh_state_def empty_host_def Let_def

lemma local_key: "plug_key local_env local_plugin = ''localapp''"
  by code_simp

text \<open>
  C8 (the code at a failing input). A plugin below \<^verbatim>\<open>BASE_DIR\<close> contributes the app
  \<^verbatim>\<open>plugins.localapp\<close>, whose import fails in a file that is not below
  \<^verbatim>\<open>purelib\<close>. Inside the handler of \<^verbatim>\<open>_try_reload\<close>, \<^verbatim>\<open>relative_to\<close>
  raises ValueError, so no PluginLoadingError is raised and \<^verbatim>\<open>load_plugins\<close> raises
  the ValueError instead of blocking the plugin.
\<close>

theorem local_traceback_escapes_try_reload:
  "try_reload local_env (set_installed_apps local_env)
      [''common'', ''plugin'', ''plugins.localapp''] empty_host = (Some ValueError, empty_host)
   \<and> get_plugin_path local_env (instantiate local_env local_plugin None) = ''plugins.localapp''
   \<and> fst (load_plugins (Suc n) local_env fresh_state) = Raised ValueError"
proof -
  have "try_reload local_env (set_installed_apps local_env)
      [''common'', ''plugin'', ''plugins.localapp''] empty_host = (Some ValueError, empty_host)"
    by code_simp
  moreover have "get_plugin_path local_env (instantiate local_env local_plugin None)
                   = ''plugins.localapp''"
    by code_simp
  moreover have "fst (load_plugins (Suc n) local_env fresh_state) = Raised ValueError"
    using local_key by (simp add: local_unfold)
  ultimately show ?thesis by simp
qed

end
